theory Spec2Isabelle
  imports Main "HOL-Library.Multiset"
begin

section \<open>RDF terms, quads and Things\<close>

text \<open>
  An RDF/JS term. Subjects handled by the library are \<open>NamedNode\<close>s (full IRI known)
  and \<open>LocalNode\<close>s (a name that becomes an IRI once persisted); other blank nodes
  and literals occur in fetched data. The graph component of a quad is never
  inspected by the ACL code and is left out.
\<close>

datatype node = NamedNode string | LocalNode string | BlankNode string | Literal string

datatype quad = Quad (subject: node) (predicate: string) (object: node)

text \<open>
  A Thing: the quads of one subject, together with that subject
  (\<open>internal_url\<close> or \<open>internal_localSubject\<close> in \<open>interfaces.ts\<close>).
\<close>

record thing =
  thing_subject :: node
  thing_quads :: "quad list"

subsection \<open>Vocabulary (\<open>constants.ts\<close>)\<close>

text \<open>
  Modelled from the spec: \<open>constants.ts\<close> is not among the sources. The IRIs are
  those of the RDF, ACL and FOAF vocabularies, as the tests spell them out.
\<close>

definition rdf_type :: string where
  "rdf_type = ''http://www.w3.org/1999/02/22-rdf-syntax-ns#type''"
definition acl_Authorization :: string where
  "acl_Authorization = ''http://www.w3.org/ns/auth/acl#Authorization''"
definition acl_accessTo :: string where
  "acl_accessTo = ''http://www.w3.org/ns/auth/acl#accessTo''"
definition acl_default :: string where
  "acl_default = ''http://www.w3.org/ns/auth/acl#default''"
definition acl_defaultForNew :: string where
  "acl_defaultForNew = ''http://www.w3.org/ns/auth/acl#defaultForNew''"
definition acl_agent :: string where
  "acl_agent = ''http://www.w3.org/ns/auth/acl#agent''"
definition acl_agentGroup :: string where
  "acl_agentGroup = ''http://www.w3.org/ns/auth/acl#agentGroup''"
definition acl_agentClass :: string where
  "acl_agentClass = ''http://www.w3.org/ns/auth/acl#agentClass''"
definition acl_origin :: string where
  "acl_origin = ''http://www.w3.org/ns/auth/acl#origin''"
definition acl_mode :: string where
  "acl_mode = ''http://www.w3.org/ns/auth/acl#mode''"
definition foaf_Agent :: string where
  "foaf_Agent = ''http://xmlns.com/foaf/0.1/Agent''"

text \<open>\<open>internal_accessModeIriStrings\<close>\<close>

definition mode_read :: string where
  "mode_read = ''http://www.w3.org/ns/auth/acl#Read''"
definition mode_append :: string where
  "mode_append = ''http://www.w3.org/ns/auth/acl#Append''"
definition mode_write :: string where
  "mode_write = ''http://www.w3.org/ns/auth/acl#Write''"
definition mode_control :: string where
  "mode_control = ''http://www.w3.org/ns/auth/acl#Control''"

subsection \<open>Reading a Thing (\<open>thing/get.ts\<close>)\<close>

text \<open>
  Modelled from the spec: \<open>thing/get.ts\<close> is not among the sources. The statement
  store is "generic subject-predicate-object storage with add/remove/query-by-subject";
  \<open>getIriAll thing p\<close> lists the IRIs of the \<open>NamedNode\<close> objects stored under
  predicate \<open>p\<close>, in storage order, and \<open>getIri\<close> is the first of them or null.
\<close>

definition iriOf :: "string \<Rightarrow> quad \<Rightarrow> string option" where
  "iriOf p q =
     (if predicate q = p
      then (case object q of NamedNode i \<Rightarrow> Some i | _ \<Rightarrow> None)
      else None)"

definition getIriAll :: "thing \<Rightarrow> string \<Rightarrow> string list" where
  "getIriAll t p = List.map_filter (iriOf p) (thing_quads t)"

definition getIri :: "thing \<Rightarrow> string \<Rightarrow> string option" where
  "getIri t p = (case getIriAll t p of [] \<Rightarrow> None | i # _ \<Rightarrow> Some i)"

subsection \<open>The statement store (\<open>thing/thing.ts\<close>, \<open>rdfjs.ts\<close>)\<close>

text \<open>
  Modelled from the spec: the dataset implementation and \<open>thing/thing.ts\<close> are not
  among the sources. A dataset is an insertion-ordered set of quads: \<open>datasetAdd\<close>
  adds a quad unless it is already stored. \<open>getThing\<close> is the query by subject,
  \<open>getThingAll\<close> returns one Thing per \<open>NamedNode\<close> or \<open>LocalNode\<close> subject in
  order of first occurrence, \<open>removeThing\<close> deletes every quad of the Thing's subject
  and \<open>setThing\<close> replaces the stored quads of that subject by those of the Thing.
  The change log that \<open>setThing\<close> and \<open>removeThing\<close> keep is not modelled.
\<close>

fun isThingSubject :: "node \<Rightarrow> bool" where
  "isThingSubject (NamedNode _) = True"
| "isThingSubject (LocalNode _) = True"
| "isThingSubject _ = False"

definition datasetAdd :: "quad list \<Rightarrow> quad \<Rightarrow> quad list" where
  "datasetAdd d q = (if q \<in> set d then d else d @ [q])"

definition datasetMatchSubject :: "quad list \<Rightarrow> node \<Rightarrow> quad list" where
  "datasetMatchSubject d s = filter (\<lambda>q. subject q = s) d"

definition datasetDeleteSubject :: "quad list \<Rightarrow> node \<Rightarrow> quad list" where
  "datasetDeleteSubject d s =
     filter (\<lambda>q. \<not> (isThingSubject (subject q) \<and> subject q = s)) d"

definition subjectNodes :: "quad list \<Rightarrow> node list" where
  "subjectNodes d =
     foldl (\<lambda>nodes q. if isThingSubject (subject q) \<and> subject q \<notin> set nodes
                       then nodes @ [subject q] else nodes) [] d"

text \<open>
  Resources carry \<open>internal_resourceInfo\<close> (\<open>WithResourceInfo\<close>); a dataset adds its
  quads; an ACL dataset adds \<open>internal_accessTo\<close> (\<open>AclDataset\<close>).
\<close>

record resource_info =
  sourceIri :: string
  aclUrl :: "string option"

record with_resource_info =
  internal_resourceInfo :: resource_info

record solid_dataset = with_resource_info +
  dataset_quads :: "quad list"

record acl_dataset = solid_dataset +
  internal_accessTo :: string

record acl_pair =
  resourceAcl :: "acl_dataset option"
  fallbackAcl :: "acl_dataset option"

record resource_with_acl = with_resource_info +
  internal_acl :: acl_pair

text \<open>
  Modelled from the spec: \<open>resource/resource.ts\<close> is not among the sources;
  \<open>getSourceUrl\<close> reads the URL a resource was fetched from.
\<close>

definition getSourceUrl :: "'a with_resource_info_scheme \<Rightarrow> string" where
  "getSourceUrl r = sourceIri (internal_resourceInfo r)"

text \<open>\<open>hasAccessibleAcl\<close> (\<open>interfaces.ts\<close>): the server advertised an ACL URL.\<close>

definition hasAccessibleAcl :: "'a with_resource_info_scheme \<Rightarrow> bool" where
  "hasAccessibleAcl r = (aclUrl (internal_resourceInfo r) \<noteq> None)"

definition getThing :: "'a solid_dataset_scheme \<Rightarrow> node \<Rightarrow> thing" where
  "getThing d s =
     \<lparr> thing_subject = s, thing_quads = datasetMatchSubject (dataset_quads d) s \<rparr>"

definition getThingAll :: "'a solid_dataset_scheme \<Rightarrow> thing list" where
  "getThingAll d = map (getThing d) (subjectNodes (dataset_quads d))"

definition removeThing :: "'a solid_dataset_scheme \<Rightarrow> thing \<Rightarrow> 'a solid_dataset_scheme" where
  "removeThing d t =
     d\<lparr> dataset_quads := datasetDeleteSubject (dataset_quads d) (thing_subject t) \<rparr>"

definition setThing :: "'a solid_dataset_scheme \<Rightarrow> thing \<Rightarrow> 'a solid_dataset_scheme" where
  "setThing d t =
     (let newDataset = removeThing d t
      in newDataset\<lparr> dataset_quads :=
           foldl datasetAdd (dataset_quads newDataset) (thing_quads t) \<rparr>)"

text \<open>
  Modelled from the spec: \<open>createThing\<close> makes an empty Thing with a \<open>LocalNode\<close>
  subject. The source draws the name at random; here the caller passes the name drawn.
\<close>

definition createThing :: "string \<Rightarrow> thing" where
  "createThing name = \<lparr> thing_subject = LocalNode name, thing_quads = [] \<rparr>"

subsection \<open>Changing a Thing (\<open>thing/add.ts\<close>, \<open>thing/set.ts\<close>, \<open>thing/remove.ts\<close>)\<close>

text \<open>
  Modelled from the spec: these modules are not among the sources. \<open>addIri\<close> adds the
  statement (subject, p, IRI); \<open>removeAll\<close> drops every statement with predicate p;
  \<open>setIri\<close> is \<open>removeAll\<close> followed by \<open>addIri\<close>; \<open>removeIri\<close> drops the
  statements with predicate p whose object is the given IRI.
\<close>

definition addIri :: "thing \<Rightarrow> string \<Rightarrow> string \<Rightarrow> thing" where
  "addIri t p v =
     t\<lparr> thing_quads := datasetAdd (thing_quads t) (Quad (thing_subject t) p (NamedNode v)) \<rparr>"

definition removeAll_thing :: "thing \<Rightarrow> string \<Rightarrow> thing" where
  "removeAll_thing t p = t\<lparr> thing_quads := filter (\<lambda>q. predicate q \<noteq> p) (thing_quads t) \<rparr>"

definition setIri :: "thing \<Rightarrow> string \<Rightarrow> string \<Rightarrow> thing" where
  "setIri t p v = addIri (removeAll_thing t p) p v"

definition removeIri :: "thing \<Rightarrow> string \<Rightarrow> string \<Rightarrow> thing" where
  "removeIri t p v =
     t\<lparr> thing_quads :=
          filter (\<lambda>q. \<not> (predicate q = p \<and> object q = NamedNode v)) (thing_quads t) \<rparr>"

section \<open>Access-mode algebra (\<open>acl/acl.ts\<close>)\<close>

record access =
  read_access :: bool
  append_access :: bool
  write_access :: bool
  control_access :: bool

definition internal_getAccess :: "thing \<Rightarrow> access" where
  "internal_getAccess rule =
     (let ruleAccessModes = getIriAll rule acl_mode;
          writeAccess = (mode_write \<in> set ruleAccessModes)
      in if writeAccess
         then \<lparr> read_access = (mode_read \<in> set ruleAccessModes),
                append_access = True,
                write_access = True,
                control_access = (mode_control \<in> set ruleAccessModes) \<rparr>
         else \<lparr> read_access = (mode_read \<in> set ruleAccessModes),
                append_access = (mode_append \<in> set ruleAccessModes),
                write_access = False,
                control_access = (mode_control \<in> set ruleAccessModes) \<rparr>)"

text \<open>The reducer passed to \<open>modes.reduce\<close> in \<open>internal_combineAccessModes\<close>.\<close>

definition combineStep :: "access \<Rightarrow> access \<Rightarrow> access" where
  "combineStep accumulator current =
     (let writeAccess = (write_access accumulator \<or> write_access current)
      in if writeAccess
         then \<lparr> read_access = (read_access accumulator \<or> read_access current),
                append_access = True,
                write_access = True,
                control_access = (control_access accumulator \<or> control_access current) \<rparr>
         else \<lparr> read_access = (read_access accumulator \<or> read_access current),
                append_access = (append_access accumulator \<or> append_access current),
                write_access = False,
                control_access = (control_access accumulator \<or> control_access current) \<rparr>)"

definition noAccess :: access where
  "noAccess = \<lparr> read_access = False, append_access = False, write_access = False, control_access = False \<rparr>"

definition internal_combineAccessModes :: "access list \<Rightarrow> access" where
  "internal_combineAccessModes modes = foldl combineStep noAccess modes"

text \<open>
  The two notions the specification uses to describe the fold: the field-wise OR of a
  list of access-mode sets, and the write-implies-append normalisation.
\<close>

definition fieldwiseOr :: "access list \<Rightarrow> access" where
  "fieldwiseOr L =
     \<lparr> read_access = (\<exists>m \<in> set L. read_access m),
       append_access = (\<exists>m \<in> set L. append_access m),
       write_access = (\<exists>m \<in> set L. write_access m),
       control_access = (\<exists>m \<in> set L. control_access m) \<rparr>"

definition normalise :: "access \<Rightarrow> access" where
  "normalise a = (if write_access a then a\<lparr> append_access := True \<rparr> else a)"

section \<open>Attached ACLs (\<open>acl/acl.ts\<close>)\<close>

definition hasResourceAcl :: "'a resource_with_acl_scheme \<Rightarrow> bool" where
  "hasResourceAcl resource =
     (case resourceAcl (internal_acl resource) of
        None \<Rightarrow> False
      | Some acl \<Rightarrow>
          getSourceUrl resource = internal_accessTo acl
          \<and> aclUrl (internal_resourceInfo resource) = Some (getSourceUrl acl))"

definition getResourceAcl :: "'a resource_with_acl_scheme \<Rightarrow> acl_dataset option" where
  "getResourceAcl resource =
     (if \<not> hasResourceAcl resource then None
      else resourceAcl (internal_acl resource))"

definition hasFallbackAcl :: "'a resource_with_acl_scheme \<Rightarrow> bool" where
  "hasFallbackAcl resource = (fallbackAcl (internal_acl resource) \<noteq> None)"

definition getFallbackAcl :: "'a resource_with_acl_scheme \<Rightarrow> acl_dataset option" where
  "getFallbackAcl resource =
     (if \<not> hasFallbackAcl resource then None
      else fallbackAcl (internal_acl resource))"

section \<open>Rule classification (\<open>acl/acl.ts\<close>)\<close>

definition isAclRule :: "thing \<Rightarrow> bool" where
  "isAclRule t = (acl_Authorization \<in> set (getIriAll t rdf_type))"

definition internal_getAclRules :: "'a solid_dataset_scheme \<Rightarrow> thing list" where
  "internal_getAclRules aclDataset = filter isAclRule (getThingAll aclDataset)"

definition appliesToResource :: "thing \<Rightarrow> string \<Rightarrow> bool" where
  "appliesToResource aclRule resource = (resource \<in> set (getIriAll aclRule acl_accessTo))"

definition internal_getResourceAclRulesForResource :: "thing list \<Rightarrow> string \<Rightarrow> thing list" where
  "internal_getResourceAclRulesForResource aclRules resource =
     filter (\<lambda>rule. appliesToResource rule resource) aclRules"

definition isDefaultForResource :: "thing \<Rightarrow> string \<Rightarrow> bool" where
  "isDefaultForResource aclRule resource =
     (resource \<in> set (getIriAll aclRule acl_default)
      \<or> resource \<in> set (getIriAll aclRule acl_defaultForNew))"

definition internal_getDefaultAclRulesForResource :: "thing list \<Rightarrow> string \<Rightarrow> thing list" where
  "internal_getDefaultAclRulesForResource aclRules resource =
     filter (\<lambda>rule. isDefaultForResource rule resource) aclRules"

definition internal_getAclRulesForIri :: "thing list \<Rightarrow> string \<Rightarrow> string \<Rightarrow> thing list" where
  "internal_getAclRulesForIri aclRules targetIri targetType =
     filter (\<lambda>rule. targetIri \<in> set (getIriAll rule targetType)) aclRules"

section \<open>Empty-rule collection (\<open>acl/acl.ts\<close>)\<close>

definition isAclQuad :: "quad \<Rightarrow> bool" where
  "isAclQuad q =
     (if predicate q = rdf_type \<and> object q = NamedNode acl_Authorization then True
      else if predicate q = acl_accessTo \<or> predicate q = acl_default
              \<or> predicate q = acl_defaultForNew then True
      else if predicate q = acl_mode
              \<and> (\<exists>mode \<in> set [mode_read, mode_append, mode_write, mode_control].
                    object q = NamedNode mode) then True
      else if predicate q = acl_agent \<or> predicate q = acl_agentGroup
              \<or> predicate q = acl_agentClass then True
      else if predicate q = acl_origin then True
      else False)"

definition isEmptyAclRule :: "thing \<Rightarrow> bool" where
  "isEmptyAclRule aclRule =
     (if (\<exists>q \<in> set (thing_quads aclRule). \<not> isAclQuad q) then False
      else if getIri aclRule acl_accessTo = None
              \<and> getIri aclRule acl_default = None
              \<and> getIri aclRule acl_defaultForNew = None then True
      else if getIri aclRule acl_mode = None then True
      else if getIri aclRule acl_agent = None
              \<and> getIri aclRule acl_agentGroup = None
              \<and> getIri aclRule acl_agentClass = None then True
      else False)"

definition internal_removeEmptyAclRules :: "'a acl_dataset_scheme \<Rightarrow> 'a acl_dataset_scheme" where
  "internal_removeEmptyAclRules aclDataset =
     (let aclRules = internal_getAclRules aclDataset;
          aclRulesToRemove = filter isEmptyAclRule aclRules
      in foldl removeThing aclDataset aclRulesToRemove)"

section \<open>Public access (\<open>acl/class.ts\<close>)\<close>

definition appliesToClass :: "thing \<Rightarrow> string \<Rightarrow> bool" where
  "appliesToClass aclRule agentClass = (agentClass \<in> set (getIriAll aclRule acl_agentClass))"

definition getClassAclRulesForClass :: "thing list \<Rightarrow> string \<Rightarrow> thing list" where
  "getClassAclRulesForClass aclRules agentClass =
     filter (\<lambda>rule. appliesToClass rule agentClass) aclRules"

definition getPublicResourceAccess :: "'a acl_dataset_scheme \<Rightarrow> access" where
  "getPublicResourceAccess aclDataset =
     (let allRules = internal_getAclRules aclDataset;
          resourceRules = internal_getResourceAclRulesForResource allRules
                            (internal_accessTo aclDataset);
          publicResourceRules = getClassAclRulesForClass resourceRules foaf_Agent;
          publicAccessModes = map internal_getAccess publicResourceRules
      in internal_combineAccessModes publicAccessModes)"

definition getPublicDefaultAccess :: "'a acl_dataset_scheme \<Rightarrow> access" where
  "getPublicDefaultAccess aclDataset =
     (let allRules = internal_getAclRules aclDataset;
          resourceRules = internal_getDefaultAclRulesForResource allRules
                            (internal_accessTo aclDataset);
          publicResourceRules = getClassAclRulesForClass resourceRules foaf_Agent;
          publicAccessModes = map internal_getAccess publicResourceRules
      in internal_combineAccessModes publicAccessModes)"

definition getPublicAccess :: "'a resource_with_acl_scheme \<Rightarrow> access option" where
  "getPublicAccess resourceInfo =
     (if hasResourceAcl resourceInfo
      then map_option getPublicResourceAccess (resourceAcl (internal_acl resourceInfo))
      else if hasFallbackAcl resourceInfo
      then map_option getPublicDefaultAccess (fallbackAcl (internal_acl resourceInfo))
      else None)"

section \<open>Group access (\<open>acl/group.ts\<close>)\<close>

definition getGroupAclRuleForGroup :: "thing list \<Rightarrow> string \<Rightarrow> thing list" where
  "getGroupAclRuleForGroup rules groupIri = internal_getAclRulesForIri rules groupIri acl_agentGroup"

definition getGroupResourceAccess :: "'a acl_dataset_scheme \<Rightarrow> string \<Rightarrow> access" where
  "getGroupResourceAccess aclDataset groupIri =
     (let allRules = internal_getAclRules aclDataset;
          resourceRules = internal_getResourceAclRulesForResource allRules
                            (internal_accessTo aclDataset);
          groupResourceRules = getGroupAclRuleForGroup resourceRules groupIri;
          groupAccessModes = map internal_getAccess groupResourceRules
      in internal_combineAccessModes groupAccessModes)"

definition getGroupDefaultAccess :: "'a acl_dataset_scheme \<Rightarrow> string \<Rightarrow> access" where
  "getGroupDefaultAccess aclDataset groupIri =
     (let allRules = internal_getAclRules aclDataset;
          defaultRules = internal_getDefaultAclRulesForResource allRules
                           (internal_accessTo aclDataset);
          groupDefaultRules = getGroupAclRuleForGroup defaultRules groupIri;
          groupAccessModes = map internal_getAccess groupDefaultRules
      in internal_combineAccessModes groupAccessModes)"

definition getGroupAccess :: "'a resource_with_acl_scheme \<Rightarrow> string \<Rightarrow> access option" where
  "getGroupAccess resourceInfo groupIri =
     (if hasResourceAcl resourceInfo
      then map_option (\<lambda>acl. getGroupResourceAccess acl groupIri)
             (resourceAcl (internal_acl resourceInfo))
      else if hasFallbackAcl resourceInfo
      then map_option (\<lambda>acl. getGroupDefaultAccess acl groupIri)
             (fallbackAcl (internal_acl resourceInfo))
      else None)"

section \<open>Agent access (\<open>acl/agent.ts\<close>)\<close>

text \<open>
  Modelled from the spec: \<open>acl/agent.ts\<close> is not among the sources. Effective access
  of an agent is computed like that of a group, the grantee filter being
  \<open>internal_getAclRulesForIri\<close> with \<open>acl:agent\<close> ("rulesForGrantee(rules, granteeIri,
  kind) where kind is agent or group").
\<close>

definition getAgentResourceAccess :: "'a acl_dataset_scheme \<Rightarrow> string \<Rightarrow> access" where
  "getAgentResourceAccess aclDataset agent =
     (let allRules = internal_getAclRules aclDataset;
          resourceRules = internal_getResourceAclRulesForResource allRules
                            (internal_accessTo aclDataset);
          agentResourceRules = internal_getAclRulesForIri resourceRules agent acl_agent;
          agentAccessModes = map internal_getAccess agentResourceRules
      in internal_combineAccessModes agentAccessModes)"

definition getAgentDefaultAccess :: "'a acl_dataset_scheme \<Rightarrow> string \<Rightarrow> access" where
  "getAgentDefaultAccess aclDataset agent =
     (let allRules = internal_getAclRules aclDataset;
          defaultRules = internal_getDefaultAclRulesForResource allRules
                           (internal_accessTo aclDataset);
          agentDefaultRules = internal_getAclRulesForIri defaultRules agent acl_agent;
          agentAccessModes = map internal_getAccess agentDefaultRules
      in internal_combineAccessModes agentAccessModes)"

text \<open>
  "Ineffective" in the words of the specification: the rule has no non-ACL statement,
  and it has no target (no \<open>accessTo\<close>, \<open>default\<close> or \<open>defaultForNew\<close> IRI), or no
  access mode, or no grantee identified by \<open>acl:agent\<close>, \<open>acl:agentGroup\<close> or
  \<open>acl:agentClass\<close>.
\<close>

definition ineffective :: "thing \<Rightarrow> bool" where
  "ineffective r \<longleftrightarrow>
     (\<forall>q \<in> set (thing_quads r). isAclQuad q)
     \<and> ((getIriAll r acl_accessTo = [] \<and> getIriAll r acl_default = []
           \<and> getIriAll r acl_defaultForNew = [])
        \<or> getIriAll r acl_mode = []
        \<or> (getIriAll r acl_agent = [] \<and> getIriAll r acl_agentGroup = []
           \<and> getIriAll r acl_agentClass = []))"

text \<open>
  Effective access in the words of the specification, stated on the stored statements.
  \<open>resourceGrant acl p g m\<close>: some Authorization of \<open>acl\<close> is scoped to the
  resource \<open>acl\<close> governs (\<open>acl:accessTo\<close>), names the grantee \<open>g\<close> under the
  predicate \<open>p\<close> and lists the mode \<open>m\<close>. \<open>defaultGrant\<close> is the same for the
  default scope (\<open>acl:default\<close> or \<open>acl:defaultForNew\<close>). \<open>accessFrom\<close> turns
  the granted modes into an access-mode set, Write granting append as well.
\<close>

definition resourceGrant :: "'a acl_dataset_scheme \<Rightarrow> string \<Rightarrow> string \<Rightarrow> string \<Rightarrow> bool" where
  "resourceGrant acl p g m \<longleftrightarrow>
     (\<exists>s \<in> subject ` set (dataset_quads acl).
        isThingSubject s
        \<and> Quad s rdf_type (NamedNode acl_Authorization) \<in> set (dataset_quads acl)
        \<and> Quad s acl_accessTo (NamedNode (internal_accessTo acl)) \<in> set (dataset_quads acl)
        \<and> Quad s p (NamedNode g) \<in> set (dataset_quads acl)
        \<and> Quad s acl_mode (NamedNode m) \<in> set (dataset_quads acl))"

definition defaultGrant :: "'a acl_dataset_scheme \<Rightarrow> string \<Rightarrow> string \<Rightarrow> string \<Rightarrow> bool" where
  "defaultGrant acl p g m \<longleftrightarrow>
     (\<exists>s \<in> subject ` set (dataset_quads acl).
        isThingSubject s
        \<and> Quad s rdf_type (NamedNode acl_Authorization) \<in> set (dataset_quads acl)
        \<and> (Quad s acl_default (NamedNode (internal_accessTo acl)) \<in> set (dataset_quads acl)
           \<or> Quad s acl_defaultForNew (NamedNode (internal_accessTo acl))
                \<in> set (dataset_quads acl))
        \<and> Quad s p (NamedNode g) \<in> set (dataset_quads acl)
        \<and> Quad s acl_mode (NamedNode m) \<in> set (dataset_quads acl))"

definition accessFrom :: "(string \<Rightarrow> bool) \<Rightarrow> access" where
  "accessFrom granted =
     \<lparr> read_access = granted mode_read,
       append_access = (granted mode_append \<or> granted mode_write),
       write_access = granted mode_write,
       control_access = granted mode_control \<rparr>"

section \<open>Example data\<close>

text \<open>
  An ACL with three Authorizations: \<open>#a\<close> names only an origin, \<open>#b\<close> grants Read to
  the public, \<open>#c\<close> has no target but carries an unrelated statement.
\<close>

definition exampleRules :: acl_dataset where
  "exampleRules =
     \<lparr> internal_resourceInfo =
         \<lparr> sourceIri = ''https://some.pod/resource.acl'', aclUrl = None \<rparr>,
       dataset_quads =
         [Quad (NamedNode ''#a'') rdf_type (NamedNode acl_Authorization),
          Quad (NamedNode ''#a'') acl_accessTo (NamedNode ''https://some.pod/resource''),
          Quad (NamedNode ''#a'') acl_mode (NamedNode mode_read),
          Quad (NamedNode ''#a'') acl_origin (NamedNode ''https://app.example''),
          Quad (NamedNode ''#b'') rdf_type (NamedNode acl_Authorization),
          Quad (NamedNode ''#b'') acl_accessTo (NamedNode ''https://some.pod/resource''),
          Quad (NamedNode ''#b'') acl_mode (NamedNode mode_read),
          Quad (NamedNode ''#b'') acl_agentClass (NamedNode foaf_Agent),
          Quad (NamedNode ''#c'') rdf_type (NamedNode acl_Authorization),
          Quad (NamedNode ''#c'') ''http://xmlns.com/foaf/0.1/name'' (Literal ''c'')],
       internal_accessTo = ''https://some.pod/resource'' \<rparr>"

section \<open>Creating rules (\<open>acl/acl.ts\<close>)\<close>

text \<open>
  \<open>createThing\<close> is called once in each of the next two functions; its name is the
  first argument.
\<close>

definition internal_initialiseAclRule :: "string \<Rightarrow> access \<Rightarrow> thing" where
  "internal_initialiseAclRule name access =
     (let newRule = createThing name;
          newRule = setIri newRule rdf_type acl_Authorization;
          newRule = (if read_access access
                     then addIri newRule acl_mode mode_read else newRule);
          newRule = (if append_access access \<and> \<not> write_access access
                     then addIri newRule acl_mode mode_append else newRule);
          newRule = (if write_access access
                     then addIri newRule acl_mode mode_write else newRule);
          newRule = (if control_access access
                     then addIri newRule acl_mode mode_control else newRule)
      in newRule)"

definition copyIris :: "thing \<Rightarrow> thing \<Rightarrow> string \<Rightarrow> thing" where
  "copyIris inputRule outputRule p =
     foldl (\<lambda>outputRule iriTarget. addIri outputRule p iriTarget)
       outputRule (getIriAll inputRule p)"

definition internal_duplicateAclRule :: "string \<Rightarrow> thing \<Rightarrow> thing" where
  "internal_duplicateAclRule name sourceRule =
     (let targetRule = createThing name;
          targetRule = setIri targetRule rdf_type acl_Authorization;
          targetRule = copyIris sourceRule targetRule acl_accessTo;
          targetRule = copyIris sourceRule targetRule acl_default;
          targetRule = copyIris sourceRule targetRule acl_defaultForNew;
          targetRule = copyIris sourceRule targetRule acl_agent;
          targetRule = copyIris sourceRule targetRule acl_agentGroup;
          targetRule = copyIris sourceRule targetRule acl_agentClass;
          targetRule = copyIris sourceRule targetRule acl_origin;
          targetRule = copyIris sourceRule targetRule acl_mode
      in targetRule)"

text \<open>
  \<open>createAcl\<close> and \<open>createAclFromFallbackAcl\<close> take a resource whose type
  (\<open>WithAccessibleAcl\<close>, \<open>WithFallbackAcl\<close>) says that an ACL URL was advertised and
  a fallback ACL is attached; for a resource outside these types the model returns
  \<open>None\<close>.
\<close>

definition createAcl :: "'a with_resource_info_scheme \<Rightarrow> acl_dataset option" where
  "createAcl targetResource =
     (case aclUrl (internal_resourceInfo targetResource) of
        None \<Rightarrow> None
      | Some url \<Rightarrow> Some
          \<lparr> internal_resourceInfo = \<lparr> sourceIri = url, aclUrl = None \<rparr>,
            dataset_quads = [],
            internal_accessTo = getSourceUrl targetResource \<rparr>)"

definition createAclFromFallbackAcl :: "'a resource_with_acl_scheme \<Rightarrow> acl_dataset option" where
  "createAclFromFallbackAcl resource =
     (case (createAcl resource, fallbackAcl (internal_acl resource)) of
        (Some emptyResourceAcl, Some fallback) \<Rightarrow>
          (let fallbackAclRules = internal_getAclRules fallback;
               defaultAclRules = internal_getDefaultAclRulesForResource fallbackAclRules
                                   (internal_accessTo fallback);
               resourceAclRules =
                 map (\<lambda>rule.
                        let rule = removeAll_thing rule acl_default;
                            rule = removeAll_thing rule acl_defaultForNew;
                            rule = setIri rule acl_accessTo (getSourceUrl resource)
                        in rule)
                     defaultAclRules;
               initialisedResourceAcl = foldl setThing emptyResourceAcl resourceAclRules
           in Some initialisedResourceAcl)
      | _ \<Rightarrow> None)"

section \<open>Setting public access (\<open>acl/class.ts\<close>)\<close>

datatype ruleType = ResourceRule | DefaultRule

definition removePublicFromRule :: "string \<Rightarrow> thing \<Rightarrow> string \<Rightarrow> ruleType \<Rightarrow> thing \<times> thing" where
  "removePublicFromRule name rule resourceIri ruleType =
     (if foaf_Agent \<notin> set (getIriAll rule acl_agentClass)
      then (let emptyRule = internal_initialiseAclRule name noAccess
            in (rule, emptyRule))
      else (let ruleWithoutPublic = removeIri rule acl_agentClass foaf_Agent;
                ruleForOtherTargets = internal_duplicateAclRule name rule;
                ruleForOtherTargets = setIri ruleForOtherTargets acl_agentClass foaf_Agent;
                ruleForOtherTargets = removeAll_thing ruleForOtherTargets acl_agent;
                ruleForOtherTargets = removeAll_thing ruleForOtherTargets acl_agentGroup;
                ruleForOtherTargets =
                  removeIri ruleForOtherTargets
                    (if ruleType = ResourceRule then acl_accessTo else acl_default)
                    resourceIri
            in (ruleWithoutPublic, ruleForOtherTargets)))"

text \<open>
  The body of the \<open>forEach\<close> in \<open>setPublicResourceAccess\<close>; \<open>names i\<close> is the name
  that the \<open>i\<close>-th call of \<open>createThing\<close> draws.
\<close>

definition filterStep ::
  "(nat \<Rightarrow> string) \<Rightarrow> string \<Rightarrow> 'a acl_dataset_scheme \<Rightarrow> nat \<times> thing \<Rightarrow> 'a acl_dataset_scheme" where
  "filterStep names resourceIri filteredAcl ir =
     (let (filteredRule, remainingRule) =
            removePublicFromRule (names (fst ir)) (snd ir) resourceIri ResourceRule;
          filteredAcl = setThing filteredAcl filteredRule;
          filteredAcl = setThing filteredAcl remainingRule
      in filteredAcl)"

definition setPublicResourceAccess ::
  "(nat \<Rightarrow> string) \<Rightarrow> 'a acl_dataset_scheme \<Rightarrow> access \<Rightarrow> 'a acl_dataset_scheme" where
  "setPublicResourceAccess names aclDataset access =
     (let things = getThingAll aclDataset;
          filteredAcl = foldl (filterStep names (internal_accessTo aclDataset)) aclDataset
                          (enumerate 0 things);
          newRule = internal_initialiseAclRule (names (length things)) access;
          newRule = setIri newRule acl_accessTo (internal_accessTo aclDataset);
          newRule = setIri newRule acl_agentClass foaf_Agent;
          updatedAcl = setThing filteredAcl newRule
      in internal_removeEmptyAclRules updatedAcl)"

text \<open>
  The names drawn are fresh for a dataset when they are pairwise different and none of
  them names a subject already stored.
\<close>

definition freshNames :: "(nat \<Rightarrow> string) \<Rightarrow> 'a solid_dataset_scheme \<Rightarrow> bool" where
  "freshNames names d \<longleftrightarrow>
     (let n = length (getThingAll d)
      in distinct (map names [0..<Suc n])
         \<and> (\<forall>i \<in> set [0..<Suc n].
               LocalNode (names i) \<notin> subject ` set (dataset_quads d)))"

section \<open>Notions used in the proofs\<close>

text \<open>
  A Thing is well formed when all its quads have its subject. \<open>effectiveAccess d P\<close>
  is the shape shared by all access queries: combine the access of the Authorization
  rules of \<open>d\<close> selected by \<open>P\<close>. \<open>grants d P m\<close> says that some selected rule of
  \<open>d\<close> lists mode \<open>m\<close>. \<open>targetedGrant P\<close> says that \<open>P\<close> selects only rules
  with a target and a grantee. \<open>importRule\<close> is the function mapped over the default
  rules in \<open>createAclFromFallbackAcl\<close>.
\<close>

definition wellFormedThing :: "thing \<Rightarrow> bool" where
  "wellFormedThing t \<longleftrightarrow> (\<forall>q \<in> set (thing_quads t). subject q = thing_subject t)"

definition effectiveAccess :: "'a solid_dataset_scheme \<Rightarrow> (thing \<Rightarrow> bool) \<Rightarrow> access" where
  "effectiveAccess d P =
     internal_combineAccessModes (map internal_getAccess (filter P (internal_getAclRules d)))"

definition grants :: "'a solid_dataset_scheme \<Rightarrow> (thing \<Rightarrow> bool) \<Rightarrow> string \<Rightarrow> bool" where
  "grants d P m \<longleftrightarrow>
     (\<exists>s. isThingSubject s
        \<and> Quad s rdf_type (NamedNode acl_Authorization) \<in> set (dataset_quads d)
        \<and> P (getThing d s)
        \<and> Quad s acl_mode (NamedNode m) \<in> set (dataset_quads d))"

definition targetedGrant :: "(thing \<Rightarrow> bool) \<Rightarrow> bool" where
  "targetedGrant P \<longleftrightarrow>
     (\<forall>t. P t \<longrightarrow>
        (getIriAll t acl_accessTo \<noteq> [] \<or> getIriAll t acl_default \<noteq> []
           \<or> getIriAll t acl_defaultForNew \<noteq> [])
        \<and> (getIriAll t acl_agent \<noteq> [] \<or> getIriAll t acl_agentGroup \<noteq> []
           \<or> getIriAll t acl_agentClass \<noteq> []))"

definition importRule :: "string \<Rightarrow> thing \<Rightarrow> thing" where
  "importRule target rule =
     setIri (removeAll_thing (removeAll_thing rule acl_default) acl_defaultForNew) acl_accessTo target"

text \<open>
  A resource without its own ACL below a container whose ACL gives the public Read by
  default and gives the owner Control over the container itself; and the same resource
  with an own ACL attached that gives the public Control over the resource, gives the
  public Write by default only, and gives a group Append on the resource.
\<close>

definition exampleFallback :: acl_dataset where
  "exampleFallback =
     \<lparr> internal_resourceInfo = \<lparr> sourceIri = ''https://some.pod/.acl'', aclUrl = None \<rparr>,
       dataset_quads =
         [Quad (NamedNode ''#d'') rdf_type (NamedNode acl_Authorization),
          Quad (NamedNode ''#d'') acl_default (NamedNode ''https://some.pod/''),
          Quad (NamedNode ''#d'') acl_agentClass (NamedNode foaf_Agent),
          Quad (NamedNode ''#d'') acl_mode (NamedNode mode_read),
          Quad (NamedNode ''#o'') rdf_type (NamedNode acl_Authorization),
          Quad (NamedNode ''#o'') acl_accessTo (NamedNode ''https://some.pod/''),
          Quad (NamedNode ''#o'') acl_agent (NamedNode ''https://some.pod/profile#me''),
          Quad (NamedNode ''#o'') acl_mode (NamedNode mode_control)],
       internal_accessTo = ''https://some.pod/'' \<rparr>"

definition exampleOwnAcl :: acl_dataset where
  "exampleOwnAcl =
     \<lparr> internal_resourceInfo =
         \<lparr> sourceIri = ''https://some.pod/resource.acl'', aclUrl = None \<rparr>,
       dataset_quads =
         [Quad (NamedNode ''#r'') rdf_type (NamedNode acl_Authorization),
          Quad (NamedNode ''#r'') acl_accessTo (NamedNode ''https://some.pod/resource''),
          Quad (NamedNode ''#r'') acl_agentClass (NamedNode foaf_Agent),
          Quad (NamedNode ''#r'') acl_mode (NamedNode mode_control),
          Quad (NamedNode ''#w'') rdf_type (NamedNode acl_Authorization),
          Quad (NamedNode ''#w'') acl_default (NamedNode ''https://some.pod/resource''),
          Quad (NamedNode ''#w'') acl_agentClass (NamedNode foaf_Agent),
          Quad (NamedNode ''#w'') acl_mode (NamedNode mode_write),
          Quad (NamedNode ''#g'') rdf_type (NamedNode acl_Authorization),
          Quad (NamedNode ''#g'') acl_accessTo (NamedNode ''https://some.pod/resource''),
          Quad (NamedNode ''#g'') acl_agentGroup (NamedNode ''https://some.pod/groups#friends''),
          Quad (NamedNode ''#g'') acl_mode (NamedNode mode_append)],
       internal_accessTo = ''https://some.pod/resource'' \<rparr>"

definition exampleChild :: resource_with_acl where
  "exampleChild =
     \<lparr> internal_resourceInfo =
         \<lparr> sourceIri = ''https://some.pod/resource'',
           aclUrl = Some ''https://some.pod/resource.acl'' \<rparr>,
       internal_acl = \<lparr> resourceAcl = None, fallbackAcl = Some exampleFallback \<rparr> \<rparr>"

definition exampleOwn :: resource_with_acl where
  "exampleOwn =
     \<lparr> internal_resourceInfo =
         \<lparr> sourceIri = ''https://some.pod/resource'',
           aclUrl = Some ''https://some.pod/resource.acl'' \<rparr>,
       internal_acl = \<lparr> resourceAcl = Some exampleOwnAcl, fallbackAcl = Some exampleFallback \<rparr> \<rparr>"

text \<open>
  For \<open>setPublicResourceAccess\<close>: \<open>initModes a\<close> are the mode IRIs that
  \<open>internal_initialiseAclRule\<close> writes for \<open>a\<close>; \<open>splitRules\<close> are the two rules
  one iteration of the loop stores; \<open>publicRule\<close> is the new rule for the public;
  \<open>updatedAcl\<close> is the dataset before empty rules are collected; \<open>remainders\<close>
  are the statements of the second rules of all iterations.
\<close>

definition initModes :: "access \<Rightarrow> string set" where
  "initModes a =
     {m. (m = mode_read \<and> read_access a)
       \<or> (m = mode_append \<and> append_access a \<and> \<not> write_access a)
       \<or> (m = mode_write \<and> write_access a)
       \<or> (m = mode_control \<and> control_access a)}"

definition splitRules :: "(nat \<Rightarrow> string) \<Rightarrow> string \<Rightarrow> nat \<times> thing \<Rightarrow> thing list" where
  "splitRules names r ir =
     [fst (removePublicFromRule (names (fst ir)) (snd ir) r ResourceRule),
      snd (removePublicFromRule (names (fst ir)) (snd ir) r ResourceRule)]"

definition publicRule :: "string \<Rightarrow> string \<Rightarrow> access \<Rightarrow> thing" where
  "publicRule name r a =
     setIri (setIri (internal_initialiseAclRule name a) acl_accessTo r) acl_agentClass foaf_Agent"

definition updatedAcl ::
  "(nat \<Rightarrow> string) \<Rightarrow> 'a acl_dataset_scheme \<Rightarrow> access \<Rightarrow> 'a acl_dataset_scheme" where
  "updatedAcl names d a =
     foldl setThing d
       (concat (map (splitRules names (internal_accessTo d)) (enumerate 0 (getThingAll d)))
        @ [publicRule (names (length (getThingAll d))) (internal_accessTo d) a])"

definition remainders :: "(nat \<Rightarrow> string) \<Rightarrow> 'a acl_dataset_scheme \<Rightarrow> quad set" where
  "remainders names d =
     (\<Union>ir \<in> set (enumerate 0 (getThingAll d)).
        set (thing_quads (snd (removePublicFromRule (names (fst ir)) (snd ir)
                                 (internal_accessTo d) ResourceRule))))"

text \<open>
  An ACL whose single rule gives Control over the resource and over its children to the
  public, to one agent and to one group; and the names drawn by \<open>createThing\<close>.
\<close>

definition exampleShared :: acl_dataset where
  "exampleShared =
     \<lparr> internal_resourceInfo =
         \<lparr> sourceIri = ''https://some.pod/resource.acl'', aclUrl = None \<rparr>,
       dataset_quads =
         [Quad (NamedNode ''#all'') rdf_type (NamedNode acl_Authorization),
          Quad (NamedNode ''#all'') acl_accessTo (NamedNode ''https://some.pod/resource''),
          Quad (NamedNode ''#all'') acl_default (NamedNode ''https://some.pod/resource''),
          Quad (NamedNode ''#all'') acl_agentClass (NamedNode foaf_Agent),
          Quad (NamedNode ''#all'') acl_agent (NamedNode ''https://some.pod/profile#me''),
          Quad (NamedNode ''#all'') acl_agentGroup (NamedNode ''https://some.pod/groups#friends''),
          Quad (NamedNode ''#all'') acl_mode (NamedNode mode_control)],
       internal_accessTo = ''https://some.pod/resource'' \<rparr>"

definition exampleNames :: "nat \<Rightarrow> string" where
  "exampleNames i = replicate (Suc i) CHR ''n''"

section \<open>Fallback resolution (\<open>acl/acl.ts\<close>)\<close>

subsection \<open>JavaScript string operations\<close>

text \<open>
  \<open>String.prototype.substring\<close> clamps both indices to the string and swaps them when
  the first exceeds the second; \<open>lastIndexOf\<close> gives the greatest index of the
  character, or \<open>-1\<close> when it does not occur. Indices are JavaScript numbers,
  here \<open>int\<close>.
\<close>

definition js_substring :: "string \<Rightarrow> int \<Rightarrow> int \<Rightarrow> string" where
  "js_substring s indexStart indexEnd =
     (let n = int (length s);
          a = max 0 (min indexStart n);
          b = max 0 (min indexEnd n);
          lo = min a b;
          hi = max a b
      in take (nat (hi - lo)) (drop (nat lo) s))"

definition js_substringFrom :: "string \<Rightarrow> int \<Rightarrow> string" where
  "js_substringFrom s indexStart = js_substring s indexStart (int (length s))"

definition js_lastIndexOf :: "string \<Rightarrow> char \<Rightarrow> int" where
  "js_lastIndexOf s c =
     (if c \<in> set s
      then int (length s) - 1 - int (length (takeWhile (\<lambda>x. x \<noteq> c) (rev s)))
      else - 1)"

definition internal_getContainerPath :: "string \<Rightarrow> string" where
  "internal_getContainerPath resourcePath =
     (let resourcePathWithoutTrailingSlash =
            (if js_substringFrom resourcePath (int (length resourcePath) - 1) = ''/''
             then js_substring resourcePath 0 (int (length resourcePath) - 1)
             else resourcePath);
          containerPath =
            js_substring resourcePath 0
              (js_lastIndexOf resourcePathWithoutTrailingSlash (CHR ''/'')) @ ''/''
      in containerPath)"

text \<open>
  The path arithmetic in the words of the specification: remove a trailing slash if
  present, then remove everything after and including the last remaining slash, then
  append a slash.
\<close>

definition removeTrailingSlash :: "string \<Rightarrow> string" where
  "removeTrailingSlash P = (if P \<noteq> [] \<and> last P = CHR ''/'' then butlast P else P)"

definition removeFromLastSlash :: "string \<Rightarrow> string" where
  "removeFromLastSlash Q = rev (drop 1 (dropWhile (\<lambda>c. c \<noteq> CHR ''/'') (rev Q)))"

definition containerOf :: "string \<Rightarrow> string" where
  "containerOf P = removeFromLastSlash (removeTrailingSlash P) @ ''/''"

subsection \<open>The walk up the container chain\<close>

text \<open>
  Modelled from the spec: the fetch functions (\<open>resource/solidDataset.ts\<close>,
  \<open>resource/resource.ts\<close>) are not among the sources. They are collaborators that
  either fail or deliver a dataset, respectively the metadata of a resource; the
  failures are those of the specification's taxonomy. The platform's \<open>URL\<close> class is
  represented by the three operations the walk uses: \<open>pathname\<close> and \<open>origin\<close> of a
  URL, and \<open>new URL(path, origin).href\<close>.
\<close>

datatype fetch_error = NotFound | Forbidden | Other nat string | Transport

record env =
  getSolidDataset :: "string \<Rightarrow> fetch_error + solid_dataset"
  getResourceInfo :: "string \<Rightarrow> fetch_error + with_resource_info"
  urlPathname :: "string \<Rightarrow> string"
  urlOrigin :: "string \<Rightarrow> string"
  urlHref :: "string \<Rightarrow> string \<Rightarrow> string"

text \<open>
  \<open>internal_fetchResourceAcl\<close>: the \<open>catch\<close> clause has no condition, so every
  failure of \<open>getSolidDataset\<close> gives null.
\<close>

definition internal_fetchResourceAcl :: "env \<Rightarrow> with_resource_info \<Rightarrow> acl_dataset option" where
  "internal_fetchResourceAcl e dataset =
     (if \<not> hasAccessibleAcl dataset then None
      else
        (case aclUrl (internal_resourceInfo dataset) of
           None \<Rightarrow> None
         | Some url \<Rightarrow>
             (case getSolidDataset e url of
                Inr aclSolidDataset \<Rightarrow> Some
                  \<lparr> internal_resourceInfo = internal_resourceInfo aclSolidDataset,
                    dataset_quads = dataset_quads aclSolidDataset,
                    internal_accessTo = getSourceUrl dataset \<rparr>
              | Inl err \<Rightarrow> None)))"

text \<open>
  \<open>internal_fetchFallbackAcl\<close> calls itself on the metadata the server returned for
  the container, so its recursion is bounded by fuel here: \<open>None\<close> is "out of fuel",
  \<open>Some (Inl err)\<close> a rejected promise, \<open>Some (Inr None)\<close> the result null.
\<close>

fun internal_fetchFallbackAcl ::
  "env \<Rightarrow> nat \<Rightarrow> with_resource_info \<Rightarrow> (fetch_error + acl_dataset option) option" where
  "internal_fetchFallbackAcl e 0 resource = None"
| "internal_fetchFallbackAcl e (Suc fuel) resource =
     (let resourceUrl = getSourceUrl resource;
          resourcePath = urlPathname e resourceUrl
      in if resourcePath = ''/'' then Some (Inr None)
         else
           (let containerPath = internal_getContainerPath resourcePath;
                containerIri = urlHref e containerPath (urlOrigin e resourceUrl)
            in case getResourceInfo e containerIri of
                 Inl err \<Rightarrow> Some (Inl err)
               | Inr containerInfo \<Rightarrow>
                   if \<not> hasAccessibleAcl containerInfo then Some (Inr None)
                   else (case internal_fetchResourceAcl e containerInfo of
                           None \<Rightarrow> internal_fetchFallbackAcl e fuel containerInfo
                         | Some containerAcl \<Rightarrow> Some (Inr (Some containerAcl)))))"

text \<open>
  A pod \<open>https://some.pod\<close> where every container advertises \<open>.acl\<close>, the ACL of
  \<open>/c/\<close> cannot be fetched (Forbidden) and the ACL of the root exists.
\<close>

definition examplePathname :: "string \<Rightarrow> string" where
  "examplePathname url = (if length url \<le> 16 then ''/'' else drop 16 url)"

definition exampleEnv :: env where
  "exampleEnv =
     \<lparr> getSolidDataset = (\<lambda>url.
         if url = ''https://some.pod/.acl''
         then Inr \<lparr> internal_resourceInfo = \<lparr> sourceIri = url, aclUrl = None \<rparr>,
                    dataset_quads = [] \<rparr>
         else if url = ''https://some.pod/c/.acl'' then Inl Forbidden
         else Inl NotFound),
       getResourceInfo = (\<lambda>url.
         Inr \<lparr> internal_resourceInfo = \<lparr> sourceIri = url, aclUrl = Some (url @ ''.acl'') \<rparr> \<rparr>),
       urlPathname = examplePathname,
       urlOrigin = take 16,
       urlHref = (\<lambda>path origin. origin @ path) \<rparr>"

definition exampleLeaf :: with_resource_info where
  "exampleLeaf =
     \<lparr> internal_resourceInfo =
         \<lparr> sourceIri = ''https://some.pod/c/r'', aclUrl = Some ''https://some.pod/c/r.acl'' \<rparr> \<rparr>"

definition exampleRoot :: with_resource_info where
  "exampleRoot =
     \<lparr> internal_resourceInfo =
         \<lparr> sourceIri = ''https://some.pod/'', aclUrl = Some ''https://some.pod/.acl'' \<rparr> \<rparr>"

text \<open>The metadata that \<open>exampleEnv\<close> returns for the container \<open>/c/\<close>.\<close>

definition exampleContainer :: with_resource_info where
  "exampleContainer =
     \<lparr> internal_resourceInfo =
         \<lparr> sourceIri = ''https://some.pod/c/'', aclUrl = Some ''https://some.pod/c/.acl'' \<rparr> \<rparr>"

text \<open>
  The measure that decreases along the walk: the root has measure 0, every other path
  its length plus one.
\<close>

definition pathMeasure :: "string \<Rightarrow> nat" where
  "pathMeasure P = (if P = ''/'' then 0 else Suc (length P))"

section \<open>Properties of the access-mode algebra\<close>

lemma foldl_combineStep_read:
  "read_access (foldl combineStep a L) = (read_access a \<or> (\<exists>m \<in> set L. read_access m))"
  by (induction L arbitrary: a) (auto simp: combineStep_def Let_def)

lemma foldl_combineStep_write:
  "write_access (foldl combineStep a L) = (write_access a \<or> (\<exists>m \<in> set L. write_access m))"
  by (induction L arbitrary: a) (auto simp: combineStep_def Let_def)

lemma foldl_combineStep_control:
  "control_access (foldl combineStep a L) = (control_access a \<or> (\<exists>m \<in> set L. control_access m))"
  by (induction L arbitrary: a) (auto simp: combineStep_def Let_def)

lemma foldl_combineStep_append:
  "append_access (foldl combineStep a L) =
     (append_access a \<or> (\<exists>m \<in> set L. append_access m)
       \<or> (L \<noteq> [] \<and> (write_access a \<or> (\<exists>m \<in> set L. write_access m))))"
proof (induction L arbitrary: a)
  case Nil
  show ?case by simp
next
  case (Cons x xs)
  have w: "write_access (combineStep a x) = (write_access a \<or> write_access x)"
    by (simp add: combineStep_def Let_def)
  have ap: "append_access (combineStep a x)
      = (write_access a \<or> write_access x \<or> append_access a \<or> append_access x)"
    by (auto simp add: combineStep_def Let_def)
  show ?case
    unfolding foldl_Cons Cons.IH w ap by (cases "xs = []") auto
qed

lemma combine_read:
  "read_access (internal_combineAccessModes L) = (\<exists>m \<in> set L. read_access m)"
  by (simp add: internal_combineAccessModes_def foldl_combineStep_read noAccess_def)

lemma combine_write:
  "write_access (internal_combineAccessModes L) = (\<exists>m \<in> set L. write_access m)"
  by (simp add: internal_combineAccessModes_def foldl_combineStep_write noAccess_def)

lemma combine_control:
  "control_access (internal_combineAccessModes L) = (\<exists>m \<in> set L. control_access m)"
  by (simp add: internal_combineAccessModes_def foldl_combineStep_control noAccess_def)

lemma combine_append:
  "append_access (internal_combineAccessModes L) =
     (\<exists>m \<in> set L. append_access m \<or> write_access m)"
  by (cases "L = []")
     (auto simp add: internal_combineAccessModes_def foldl_combineStep_append noAccess_def)

lemma combine_eq_normalise_or:
  "internal_combineAccessModes L = normalise (fieldwiseOr L)"
  by (rule access.equality)
     (auto simp: combine_read combine_write combine_control combine_append
                 normalise_def fieldwiseOr_def)

lemma combine_cong_set:
  "set L = set L' \<Longrightarrow> internal_combineAccessModes L = internal_combineAccessModes L'"
  by (simp add: combine_eq_normalise_or fieldwiseOr_def)

text \<open>
  C5. \<open>internal_getAccess\<close> of a rule: when the rule's \<open>acl:mode\<close> IRIs include Write
  the result is read_access = has(Read), append = true, write_access = true, control_access = has(Control);
  otherwise it is read_access = has(Read), append = has(Append), write_access = false,
  control_access = has(Control). In both cases a result with write has append.
\<close>

theorem internal_getAccess_cases:
  "internal_getAccess r =
     (if mode_write \<in> set (getIriAll r acl_mode)
      then \<lparr> read_access = (mode_read \<in> set (getIriAll r acl_mode)),
             append_access = True, write_access = True,
             control_access = (mode_control \<in> set (getIriAll r acl_mode)) \<rparr>
      else \<lparr> read_access = (mode_read \<in> set (getIriAll r acl_mode)),
             append_access = (mode_append \<in> set (getIriAll r acl_mode)),
             write_access = False,
             control_access = (mode_control \<in> set (getIriAll r acl_mode)) \<rparr>)
   \<and> (write_access (internal_getAccess r) \<longrightarrow> append_access (internal_getAccess r))"
  by (simp add: internal_getAccess_def Let_def)

theorem internal_getAccess_cases_witness:
  "write_access (internal_getAccess
      \<lparr> thing_subject = LocalNode ''r'',
        thing_quads = [Quad (LocalNode ''r'') acl_mode (NamedNode mode_write)] \<rparr>)
   \<and> append_access (internal_getAccess
      \<lparr> thing_subject = LocalNode ''r'',
        thing_quads = [Quad (LocalNode ''r'') acl_mode (NamedNode mode_write)] \<rparr>)
   \<and> mode_append \<notin> set (getIriAll
      \<lparr> thing_subject = LocalNode ''r'',
        thing_quads = [Quad (LocalNode ''r'') acl_mode (NamedNode mode_write)] \<rparr> acl_mode)"
  using internal_getAccess_cases
    [of "\<lparr> thing_subject = LocalNode ''r'',
          thing_quads = [Quad (LocalNode ''r'') acl_mode (NamedNode mode_write)] \<rparr>"]
  by (simp add: getIriAll_def iriOf_def List.map_filter_def mode_write_def mode_append_def)

text \<open>
  C6. \<open>internal_combineAccessModes\<close> of a list is the field-wise OR of its members
  followed by the write-implies-append normalisation. Hence the result does not depend
  on the order of the list (commutativity), combining two combined parts is combining
  the concatenation (associativity), and the empty list gives all-false.
\<close>

theorem internal_combineAccessModes_fieldwise_or:
  "internal_combineAccessModes L = normalise (fieldwiseOr L)
   \<and> (mset L = mset L' \<longrightarrow> internal_combineAccessModes L = internal_combineAccessModes L')
   \<and> internal_combineAccessModes
        [internal_combineAccessModes L1, internal_combineAccessModes L2]
       = internal_combineAccessModes (L1 @ L2)
   \<and> internal_combineAccessModes []
       = \<lparr> read_access = False, append_access = False, write_access = False, control_access = False \<rparr>"
proof (intro conjI impI)
  show "internal_combineAccessModes L = normalise (fieldwiseOr L)"
    by (rule combine_eq_normalise_or)
next
  assume "mset L = mset L'"
  then have "set L = set L'" by (rule mset_eq_setD)
  then show "internal_combineAccessModes L = internal_combineAccessModes L'"
    by (rule combine_cong_set)
next
  show "internal_combineAccessModes
          [internal_combineAccessModes L1, internal_combineAccessModes L2]
        = internal_combineAccessModes (L1 @ L2)"
    by (rule access.equality)
       (auto simp: combine_read combine_write combine_control combine_append)
next
  show "internal_combineAccessModes []
        = \<lparr> read_access = False, append_access = False, write_access = False, control_access = False \<rparr>"
    by (simp add: internal_combineAccessModes_def noAccess_def)
qed

theorem internal_combineAccessModes_fieldwise_or_witness:
  "mset [noAccess\<lparr> write_access := True \<rparr>, noAccess\<lparr> read_access := True \<rparr>]
     = mset [noAccess\<lparr> read_access := True \<rparr>, noAccess\<lparr> write_access := True \<rparr>]
   \<and> internal_combineAccessModes [noAccess\<lparr> write_access := True \<rparr>, noAccess\<lparr> read_access := True \<rparr>]
     = internal_combineAccessModes [noAccess\<lparr> read_access := True \<rparr>, noAccess\<lparr> write_access := True \<rparr>]
   \<and> internal_combineAccessModes [noAccess\<lparr> write_access := True \<rparr>, noAccess\<lparr> read_access := True \<rparr>]
     = \<lparr> read_access = True, append_access = True, write_access = True, control_access = False \<rparr>"
  using internal_combineAccessModes_fieldwise_or
    [of "[noAccess\<lparr> write_access := True \<rparr>, noAccess\<lparr> read_access := True \<rparr>]"
        "[noAccess\<lparr> read_access := True \<rparr>, noAccess\<lparr> write_access := True \<rparr>]" "[]" "[]"]
  by (simp add: internal_combineAccessModes_def combineStep_def noAccess_def)

section \<open>Which ACL governs a resource\<close>

text \<open>
  C10. \<open>hasResourceAcl\<close> holds exactly when a resource ACL is attached whose
  \<open>internal_accessTo\<close> is the resource's own source URL and whose own source URL is the
  ACL URL the server advertised for the resource; when a check fails,
  \<open>getResourceAcl\<close> is null although an ACL dataset is attached.
\<close>

theorem hasResourceAcl_pertains:
  "(hasResourceAcl resource \<longleftrightarrow>
      (\<exists>acl. resourceAcl (internal_acl resource) = Some acl
         \<and> internal_accessTo acl = sourceIri (internal_resourceInfo resource)
         \<and> aclUrl (internal_resourceInfo resource)
             = Some (sourceIri (internal_resourceInfo acl))))
   \<and> (resourceAcl (internal_acl resource) = Some acl
        \<and> (internal_accessTo acl \<noteq> sourceIri (internal_resourceInfo resource)
            \<or> aclUrl (internal_resourceInfo resource)
                 \<noteq> Some (sourceIri (internal_resourceInfo acl)))
       \<longrightarrow> \<not> hasResourceAcl resource \<and> getResourceAcl resource = None)
   \<and> (hasResourceAcl resource
       \<longrightarrow> getResourceAcl resource = resourceAcl (internal_acl resource))"
  by (auto simp: hasResourceAcl_def getResourceAcl_def getSourceUrl_def
           split: option.splits)

theorem hasResourceAcl_pertains_witness:
  "resourceAcl (internal_acl
      \<lparr> internal_resourceInfo = \<lparr> sourceIri = ''https://some.pod/resource'',
                                  aclUrl = Some ''https://some.pod/resource.acl'' \<rparr>,
        internal_acl = \<lparr> resourceAcl = Some
            \<lparr> internal_resourceInfo = \<lparr> sourceIri = ''https://some.pod/resource.acl'',
                                        aclUrl = None \<rparr>,
              dataset_quads = [],
              internal_accessTo = ''https://some.pod/other'' \<rparr>,
          fallbackAcl = None \<rparr> \<rparr>) \<noteq> None
   \<and> getResourceAcl
      \<lparr> internal_resourceInfo = \<lparr> sourceIri = ''https://some.pod/resource'',
                                  aclUrl = Some ''https://some.pod/resource.acl'' \<rparr>,
        internal_acl = \<lparr> resourceAcl = Some
            \<lparr> internal_resourceInfo = \<lparr> sourceIri = ''https://some.pod/resource.acl'',
                                        aclUrl = None \<rparr>,
              dataset_quads = [],
              internal_accessTo = ''https://some.pod/other'' \<rparr>,
          fallbackAcl = None \<rparr> \<rparr> = None"
  using hasResourceAcl_pertains
    [of "\<lparr> internal_resourceInfo = \<lparr> sourceIri = ''https://some.pod/resource'',
                                  aclUrl = Some ''https://some.pod/resource.acl'' \<rparr>,
        internal_acl = \<lparr> resourceAcl = Some
            \<lparr> internal_resourceInfo = \<lparr> sourceIri = ''https://some.pod/resource.acl'',
                                        aclUrl = None \<rparr>,
              dataset_quads = [],
              internal_accessTo = ''https://some.pod/other'' \<rparr>,
          fallbackAcl = None \<rparr> \<rparr>"
        "\<lparr> internal_resourceInfo = \<lparr> sourceIri = ''https://some.pod/resource.acl'',
                                        aclUrl = None \<rparr>,
              dataset_quads = [],
              internal_accessTo = ''https://some.pod/other'' \<rparr>"]
  by simp

section \<open>Properties of the statement store\<close>

lemma getIri_None: "getIri t p = None \<longleftrightarrow> getIriAll t p = []"
  by (simp add: getIri_def split: list.splits)

lemma isEmptyAclRule_ineffective: "isEmptyAclRule r = ineffective r"
  by (auto simp: isEmptyAclRule_def ineffective_def getIri_None)

lemma subjectNodes_foldl_set:
  "set (foldl (\<lambda>nodes q. if isThingSubject (subject q) \<and> subject q \<notin> set nodes
                       then nodes @ [subject q] else nodes) acc d)
   = set acc \<union> {s \<in> subject ` set d. isThingSubject s}"
  by (induction d arbitrary: acc) auto

lemma subjectNodes_foldl_distinct:
  "distinct acc \<Longrightarrow> distinct (foldl (\<lambda>nodes q. if isThingSubject (subject q) \<and> subject q \<notin> set nodes
                       then nodes @ [subject q] else nodes) acc d)"
  by (induction d arbitrary: acc) auto

lemma set_subjectNodes: "set (subjectNodes d) = {s \<in> subject ` set d. isThingSubject s}"
  by (simp add: subjectNodes_def subjectNodes_foldl_set)

lemma distinct_subjectNodes: "distinct (subjectNodes d)"
  by (simp add: subjectNodes_def subjectNodes_foldl_distinct)

lemma thing_subject_getThing: "thing_subject (getThing d s) = s"
  by (simp add: getThing_def)

lemma dataset_quads_update_cong:
  "A = B \<Longrightarrow> d\<lparr> dataset_quads := A \<rparr> = d\<lparr> dataset_quads := B \<rparr>"
  by simp

lemma foldl_removeThing:
  "foldl removeThing d ts =
     d\<lparr> dataset_quads :=
          filter (\<lambda>q. \<not> (isThingSubject (subject q) \<and> subject q \<in> thing_subject ` set ts))
            (dataset_quads d) \<rparr>"
proof (induction ts arbitrary: d)
  case Nil
  show ?case by simp
next
  case (Cons t ts)
  have "foldl removeThing d (t # ts) = foldl removeThing (removeThing d t) ts"
    by simp
  also have "\<dots> = (removeThing d t)\<lparr> dataset_quads :=
          filter (\<lambda>q. \<not> (isThingSubject (subject q) \<and> subject q \<in> thing_subject ` set ts))
            (dataset_quads (removeThing d t)) \<rparr>"
    by (rule Cons.IH)
  also have "\<dots> = d\<lparr> dataset_quads :=
          filter (\<lambda>q. \<not> (isThingSubject (subject q) \<and> subject q \<in> thing_subject ` set (t # ts)))
            (dataset_quads d) \<rparr>"
    unfolding removeThing_def datasetDeleteSubject_def
    by (simp, intro dataset_quads_update_cong filter_cong) auto
  finally show ?case .
qed

lemma removeEmptyAclRules_filter:
  "internal_removeEmptyAclRules d =
     d\<lparr> dataset_quads :=
          filter (\<lambda>q. \<not> (isThingSubject (subject q)
                          \<and> isAclRule (getThing d (subject q))
                          \<and> ineffective (getThing d (subject q))))
            (dataset_quads d) \<rparr>"
proof -
  let ?rm = "filter isEmptyAclRule (internal_getAclRules d)"
  have rm: "set ?rm = {getThing d s | s. s \<in> set (subjectNodes (dataset_quads d))
            \<and> isAclRule (getThing d s) \<and> ineffective (getThing d s)}"
    by (auto simp: internal_getAclRules_def getThingAll_def isEmptyAclRule_ineffective)
  have subj: "thing_subject ` set ?rm
      = {s \<in> subject ` set (dataset_quads d). isThingSubject s
            \<and> isAclRule (getThing d s) \<and> ineffective (getThing d s)}"
    unfolding rm set_subjectNodes by (force simp: thing_subject_getThing)
  have "\<And>q. q \<in> set (dataset_quads d) \<Longrightarrow>
      (\<not> (isThingSubject (subject q) \<and> subject q \<in> thing_subject ` set ?rm))
      = (\<not> (isThingSubject (subject q)
                          \<and> isAclRule (getThing d (subject q))
                          \<and> ineffective (getThing d (subject q))))"
    unfolding subj by auto
  then have "filter (\<lambda>q. \<not> (isThingSubject (subject q) \<and> subject q \<in> thing_subject ` set ?rm))
            (dataset_quads d)
      = filter (\<lambda>q. \<not> (isThingSubject (subject q)
                          \<and> isAclRule (getThing d (subject q))
                          \<and> ineffective (getThing d (subject q))))
            (dataset_quads d)"
    by (rule filter_cong[OF refl])
  then show ?thesis
    by (simp add: internal_removeEmptyAclRules_def Let_def foldl_removeThing)
qed


section \<open>Empty-rule collection\<close>

text \<open>
  C8. \<open>internal_removeEmptyAclRules\<close> deletes exactly the statements of those
  Authorization rules that are ineffective: a rule with a non-ACL statement is never
  removed; otherwise a rule is removed if and only if it has no target, or no access
  mode, or no agent, group or class grantee (so a rule with only an origin is removed).
  Every other statement stays, in its place, and the metadata of the dataset is
  unchanged.
\<close>

theorem internal_removeEmptyAclRules_exact:
  "internal_removeEmptyAclRules d =
     d\<lparr> dataset_quads :=
          filter (\<lambda>q. \<not> (isThingSubject (subject q)
                          \<and> isAclRule (getThing d (subject q))
                          \<and> ineffective (getThing d (subject q))))
            (dataset_quads d) \<rparr>"
  by (rule removeEmptyAclRules_filter)

theorem internal_removeEmptyAclRules_exact_witness:
  "ineffective (getThing exampleRules (NamedNode ''#a''))
   \<and> \<not> ineffective (getThing exampleRules (NamedNode ''#b''))
   \<and> \<not> ineffective (getThing exampleRules (NamedNode ''#c''))
   \<and> dataset_quads (internal_removeEmptyAclRules exampleRules) =
         [Quad (NamedNode ''#b'') rdf_type (NamedNode acl_Authorization),
          Quad (NamedNode ''#b'') acl_accessTo (NamedNode ''https://some.pod/resource''),
          Quad (NamedNode ''#b'') acl_mode (NamedNode mode_read),
          Quad (NamedNode ''#b'') acl_agentClass (NamedNode foaf_Agent),
          Quad (NamedNode ''#c'') rdf_type (NamedNode acl_Authorization),
          Quad (NamedNode ''#c'') ''http://xmlns.com/foaf/0.1/name'' (Literal ''c'')]"
proof -
  have a: "ineffective (getThing exampleRules (NamedNode ''#a''))"
    by code_simp
  have b: "\<not> ineffective (getThing exampleRules (NamedNode ''#b''))"
    by code_simp
  have c: "\<not> ineffective (getThing exampleRules (NamedNode ''#c''))"
    by code_simp
  have "dataset_quads (exampleRules\<lparr> dataset_quads :=
          filter (\<lambda>q. \<not> (isThingSubject (subject q)
                          \<and> isAclRule (getThing exampleRules (subject q))
                          \<and> ineffective (getThing exampleRules (subject q))))
            (dataset_quads exampleRules) \<rparr>) =
         [Quad (NamedNode ''#b'') rdf_type (NamedNode acl_Authorization),
          Quad (NamedNode ''#b'') acl_accessTo (NamedNode ''https://some.pod/resource''),
          Quad (NamedNode ''#b'') acl_mode (NamedNode mode_read),
          Quad (NamedNode ''#b'') acl_agentClass (NamedNode foaf_Agent),
          Quad (NamedNode ''#c'') rdf_type (NamedNode acl_Authorization),
          Quad (NamedNode ''#c'') ''http://xmlns.com/foaf/0.1/name'' (Literal ''c'')]"
    by code_simp
  then have "dataset_quads (internal_removeEmptyAclRules exampleRules) =
         [Quad (NamedNode ''#b'') rdf_type (NamedNode acl_Authorization),
          Quad (NamedNode ''#b'') acl_accessTo (NamedNode ''https://some.pod/resource''),
          Quad (NamedNode ''#b'') acl_mode (NamedNode mode_read),
          Quad (NamedNode ''#b'') acl_agentClass (NamedNode foaf_Agent),
          Quad (NamedNode ''#c'') rdf_type (NamedNode acl_Authorization),
          Quad (NamedNode ''#c'') ''http://xmlns.com/foaf/0.1/name'' (Literal ''c'')]"
    by (simp only: internal_removeEmptyAclRules_exact [of exampleRules])
  with a b c show ?thesis by (intro conjI)
qed

section \<open>More on the statement store\<close>

lemma vocabulary_distinct [simp]:
  "rdf_type \<noteq> acl_accessTo "
  "rdf_type \<noteq> acl_default "
  "rdf_type \<noteq> acl_defaultForNew "
  "rdf_type \<noteq> acl_agent "
  "rdf_type \<noteq> acl_agentGroup "
  "rdf_type \<noteq> acl_agentClass "
  "rdf_type \<noteq> acl_origin "
  "rdf_type \<noteq> acl_mode "
  "acl_accessTo \<noteq> rdf_type "
  "acl_accessTo \<noteq> acl_default "
  "acl_accessTo \<noteq> acl_defaultForNew "
  "acl_accessTo \<noteq> acl_agent "
  "acl_accessTo \<noteq> acl_agentGroup "
  "acl_accessTo \<noteq> acl_agentClass "
  "acl_accessTo \<noteq> acl_origin "
  "acl_accessTo \<noteq> acl_mode "
  "acl_default \<noteq> rdf_type "
  "acl_default \<noteq> acl_accessTo "
  "acl_default \<noteq> acl_defaultForNew "
  "acl_default \<noteq> acl_agent "
  "acl_default \<noteq> acl_agentGroup "
  "acl_default \<noteq> acl_agentClass "
  "acl_default \<noteq> acl_origin "
  "acl_default \<noteq> acl_mode "
  "acl_defaultForNew \<noteq> rdf_type "
  "acl_defaultForNew \<noteq> acl_accessTo "
  "acl_defaultForNew \<noteq> acl_default "
  "acl_defaultForNew \<noteq> acl_agent "
  "acl_defaultForNew \<noteq> acl_agentGroup "
  "acl_defaultForNew \<noteq> acl_agentClass "
  "acl_defaultForNew \<noteq> acl_origin "
  "acl_defaultForNew \<noteq> acl_mode "
  "acl_agent \<noteq> rdf_type "
  "acl_agent \<noteq> acl_accessTo "
  "acl_agent \<noteq> acl_default "
  "acl_agent \<noteq> acl_defaultForNew "
  "acl_agent \<noteq> acl_agentGroup "
  "acl_agent \<noteq> acl_agentClass "
  "acl_agent \<noteq> acl_origin "
  "acl_agent \<noteq> acl_mode "
  "acl_agentGroup \<noteq> rdf_type "
  "acl_agentGroup \<noteq> acl_accessTo "
  "acl_agentGroup \<noteq> acl_default "
  "acl_agentGroup \<noteq> acl_defaultForNew "
  "acl_agentGroup \<noteq> acl_agent "
  "acl_agentGroup \<noteq> acl_agentClass "
  "acl_agentGroup \<noteq> acl_origin "
  "acl_agentGroup \<noteq> acl_mode "
  "acl_agentClass \<noteq> rdf_type "
  "acl_agentClass \<noteq> acl_accessTo "
  "acl_agentClass \<noteq> acl_default "
  "acl_agentClass \<noteq> acl_defaultForNew "
  "acl_agentClass \<noteq> acl_agent "
  "acl_agentClass \<noteq> acl_agentGroup "
  "acl_agentClass \<noteq> acl_origin "
  "acl_agentClass \<noteq> acl_mode "
  "acl_origin \<noteq> rdf_type "
  "acl_origin \<noteq> acl_accessTo "
  "acl_origin \<noteq> acl_default "
  "acl_origin \<noteq> acl_defaultForNew "
  "acl_origin \<noteq> acl_agent "
  "acl_origin \<noteq> acl_agentGroup "
  "acl_origin \<noteq> acl_agentClass "
  "acl_origin \<noteq> acl_mode "
  "acl_mode \<noteq> rdf_type "
  "acl_mode \<noteq> acl_accessTo "
  "acl_mode \<noteq> acl_default "
  "acl_mode \<noteq> acl_defaultForNew "
  "acl_mode \<noteq> acl_agent "
  "acl_mode \<noteq> acl_agentGroup "
  "acl_mode \<noteq> acl_agentClass "
  "acl_mode \<noteq> acl_origin"
  by (simp_all add: rdf_type_def acl_accessTo_def acl_default_def acl_defaultForNew_def
      acl_agent_def acl_agentGroup_def acl_agentClass_def acl_origin_def acl_mode_def)

lemma modes_distinct [simp]:
  "mode_read \<noteq> mode_append "
  "mode_read \<noteq> mode_write "
  "mode_read \<noteq> mode_control "
  "mode_append \<noteq> mode_read "
  "mode_append \<noteq> mode_write "
  "mode_append \<noteq> mode_control "
  "mode_write \<noteq> mode_read "
  "mode_write \<noteq> mode_append "
  "mode_write \<noteq> mode_control "
  "mode_control \<noteq> mode_read "
  "mode_control \<noteq> mode_append "
  "mode_control \<noteq> mode_write"
  by (simp_all add: mode_read_def mode_append_def mode_write_def mode_control_def)

lemma set_datasetAdd: "set (datasetAdd d q) = insert q (set d)"
  by (auto simp: datasetAdd_def)

lemma set_foldl_datasetAdd: "set (foldl datasetAdd d qs) = set d \<union> set qs"
  by (induction qs arbitrary: d) (auto simp: set_datasetAdd)

lemma iriOf_Some:
  "iriOf p q = Some v \<longleftrightarrow> predicate q = p \<and> object q = NamedNode v"
  by (auto simp: iriOf_def split: node.splits)

lemma in_map_filter:
  "v \<in> set (List.map_filter f qs) \<longleftrightarrow> (\<exists>q \<in> set qs. f q = Some v)"
  by (induction qs) (auto split: option.splits)

lemma in_getIriAll:
  "v \<in> set (getIriAll t p) \<longleftrightarrow>
     (\<exists>q \<in> set (thing_quads t). predicate q = p \<and> object q = NamedNode v)"
  by (simp add: getIriAll_def in_map_filter iriOf_Some)

lemma in_getIriAll_getThing:
  "v \<in> set (getIriAll (getThing d s) p) \<longleftrightarrow> Quad s p (NamedNode v) \<in> set (dataset_quads d)"
proof -
  have "\<And>q. (subject q = s \<and> predicate q = p \<and> object q = NamedNode v)
      = (q = Quad s p (NamedNode v))"
    by (case_tac q) auto
  then show ?thesis
    by (auto simp: in_getIriAll getThing_def datasetMatchSubject_def)
qed

lemma getIriAll_Nil:
  "getIriAll t p = [] \<longleftrightarrow> (\<forall>v. v \<notin> set (getIriAll t p))"
  by (cases "getIriAll t p") auto

lemma setThing_quads:
  "set (dataset_quads (setThing d t)) =
     {q \<in> set (dataset_quads d). \<not> (isThingSubject (subject q) \<and> subject q = thing_subject t)}
     \<union> set (thing_quads t)"
  by (auto simp: setThing_def removeThing_def Let_def set_foldl_datasetAdd datasetDeleteSubject_def)

lemma setThing_accessTo [simp]: "internal_accessTo (setThing d t) = internal_accessTo d"
  by (simp add: setThing_def removeThing_def Let_def)

lemma setThing_resourceInfo [simp]:
  "internal_resourceInfo (setThing d t) = internal_resourceInfo d"
  by (simp add: setThing_def removeThing_def Let_def)

lemma foldl_setThing_accessTo [simp]:
  "internal_accessTo (foldl setThing d ts) = internal_accessTo d"
  by (induction ts arbitrary: d) simp_all

lemma foldl_setThing_resourceInfo [simp]:
  "internal_resourceInfo (foldl setThing d ts) = internal_resourceInfo d"
  by (induction ts arbitrary: d) simp_all

lemma foldl_setThing_quads:
  assumes "distinct (map thing_subject ts)"
    and "\<forall>t \<in> set ts. wellFormedThing t"
  shows "set (dataset_quads (foldl setThing d ts)) =
     {q \<in> set (dataset_quads d).
        \<not> (isThingSubject (subject q) \<and> subject q \<in> thing_subject ` set ts)}
     \<union> (\<Union>t \<in> set ts. set (thing_quads t))"
  using assms
proof (induction ts arbitrary: d)
  case Nil
  show ?case by simp
next
  case (Cons t ts)
  have d: "distinct (map thing_subject ts)" and w: "\<forall>t \<in> set ts. wellFormedThing t"
    using Cons.prems by simp_all
  have wt: "\<forall>q \<in> set (thing_quads t). subject q = thing_subject t"
    using Cons.prems by (simp add: wellFormedThing_def)
  have nt: "thing_subject t \<notin> thing_subject ` set ts"
    using Cons.prems by simp
  show ?case
    unfolding foldl_Cons Cons.IH[OF d w] setThing_quads
    using wt nt by auto
qed

lemma wellFormed_getThing: "wellFormedThing (getThing d s)"
  by (simp add: wellFormedThing_def getThing_def datasetMatchSubject_def)


section \<open>Effective access in terms of stored statements\<close>

lemma set_getAclRules:
  "set (internal_getAclRules d) =
     {getThing d s | s. isThingSubject s
        \<and> Quad s rdf_type (NamedNode acl_Authorization) \<in> set (dataset_quads d)}"
proof -
  have "\<And>s. Quad s rdf_type (NamedNode acl_Authorization) \<in> set (dataset_quads d)
      \<Longrightarrow> s \<in> subject ` set (dataset_quads d)"
    by force
  then show ?thesis
    by (auto simp: internal_getAclRules_def getThingAll_def set_subjectNodes isAclRule_def
                   in_getIriAll_getThing)
qed

lemma exists_rule_iff:
  "(\<exists>t \<in> set (filter P (internal_getAclRules d)). m \<in> set (getIriAll t acl_mode))
     \<longleftrightarrow> grants d P m"
  unfolding grants_def set_filter set_getAclRules
  by (auto simp: in_getIriAll_getThing)

lemma getAccess_read: "read_access (internal_getAccess t) = (mode_read \<in> set (getIriAll t acl_mode))"
  by (simp add: internal_getAccess_def Let_def)
lemma getAccess_write: "write_access (internal_getAccess t) = (mode_write \<in> set (getIriAll t acl_mode))"
  by (simp add: internal_getAccess_def Let_def)
lemma getAccess_control: "control_access (internal_getAccess t) = (mode_control \<in> set (getIriAll t acl_mode))"
  by (simp add: internal_getAccess_def Let_def)
lemma getAccess_append: "append_access (internal_getAccess t)
    = (mode_append \<in> set (getIriAll t acl_mode) \<or> mode_write \<in> set (getIriAll t acl_mode))"
  by (simp add: internal_getAccess_def Let_def)

lemma effectiveAccess_grants:
  "effectiveAccess d P =
     \<lparr> read_access = grants d P mode_read,
       append_access = (grants d P mode_append \<or> grants d P mode_write),
       write_access = grants d P mode_write,
       control_access = grants d P mode_control \<rparr>"
proof -
  let ?R = "filter P (internal_getAclRules d)"
  have r: "read_access (effectiveAccess d P) = grants d P mode_read"
    unfolding effectiveAccess_def combine_read exists_rule_iff[symmetric]
    by (simp add: getAccess_read)
  have w: "write_access (effectiveAccess d P) = grants d P mode_write"
    unfolding effectiveAccess_def combine_write exists_rule_iff[symmetric]
    by (simp add: getAccess_write)
  have c: "control_access (effectiveAccess d P) = grants d P mode_control"
    unfolding effectiveAccess_def combine_control exists_rule_iff[symmetric]
    by (simp add: getAccess_control)
  have a: "append_access (effectiveAccess d P) = (grants d P mode_append \<or> grants d P mode_write)"
    unfolding effectiveAccess_def combine_append exists_rule_iff[symmetric]
    by (auto simp add: getAccess_append getAccess_write)
  show ?thesis
    by (rule access.equality) (simp_all add: r w c a)
qed

lemma effectiveAccess_cong:
  "(\<And>m. grants d P m = grants d' P' m) \<Longrightarrow> effectiveAccess d P = effectiveAccess d' P'"
  by (simp add: effectiveAccess_grants)

lemma getPublicResourceAccess_effective:
  "getPublicResourceAccess d =
     effectiveAccess d (\<lambda>t. appliesToResource t (internal_accessTo d) \<and> appliesToClass t foaf_Agent)"
  by (simp add: getPublicResourceAccess_def effectiveAccess_def Let_def
        internal_getResourceAclRulesForResource_def getClassAclRulesForClass_def)

lemma getPublicDefaultAccess_effective:
  "getPublicDefaultAccess d =
     effectiveAccess d (\<lambda>t. isDefaultForResource t (internal_accessTo d) \<and> appliesToClass t foaf_Agent)"
  by (simp add: getPublicDefaultAccess_def effectiveAccess_def Let_def
        internal_getDefaultAclRulesForResource_def getClassAclRulesForClass_def)

lemma getGroupResourceAccess_effective:
  "getGroupResourceAccess d g =
     effectiveAccess d (\<lambda>t. appliesToResource t (internal_accessTo d)
                          \<and> g \<in> set (getIriAll t acl_agentGroup))"
  by (simp add: getGroupResourceAccess_def effectiveAccess_def Let_def
        internal_getResourceAclRulesForResource_def getGroupAclRuleForGroup_def
        internal_getAclRulesForIri_def)

lemma getGroupDefaultAccess_effective:
  "getGroupDefaultAccess d g =
     effectiveAccess d (\<lambda>t. isDefaultForResource t (internal_accessTo d)
                          \<and> g \<in> set (getIriAll t acl_agentGroup))"
  by (simp add: getGroupDefaultAccess_def effectiveAccess_def Let_def
        internal_getDefaultAclRulesForResource_def getGroupAclRuleForGroup_def
        internal_getAclRulesForIri_def)

lemma getAgentResourceAccess_effective:
  "getAgentResourceAccess d g =
     effectiveAccess d (\<lambda>t. appliesToResource t (internal_accessTo d)
                          \<and> g \<in> set (getIriAll t acl_agent))"
  by (simp add: getAgentResourceAccess_def effectiveAccess_def Let_def
        internal_getResourceAclRulesForResource_def internal_getAclRulesForIri_def)

lemma getAgentDefaultAccess_effective:
  "getAgentDefaultAccess d g =
     effectiveAccess d (\<lambda>t. isDefaultForResource t (internal_accessTo d)
                          \<and> g \<in> set (getIriAll t acl_agent))"
  by (simp add: getAgentDefaultAccess_def effectiveAccess_def Let_def
        internal_getDefaultAclRulesForResource_def internal_getAclRulesForIri_def)


section \<open>Collecting empty rules preserves effective access\<close>

lemma removeEmpty_accessTo [simp]:
  "internal_accessTo (internal_removeEmptyAclRules d) = internal_accessTo d"
  by (simp add: removeEmptyAclRules_filter)

lemma getThing_removeEmpty:
  "getThing (internal_removeEmptyAclRules d) s =
     (if isThingSubject s \<and> isAclRule (getThing d s) \<and> ineffective (getThing d s)
      then \<lparr> thing_subject = s, thing_quads = [] \<rparr>
      else getThing d s)"
proof -
  have "filter (\<lambda>q. subject q = s)
          (filter (\<lambda>q. \<not> (isThingSubject (subject q)
                          \<and> isAclRule (getThing d (subject q))
                          \<and> ineffective (getThing d (subject q))))
            (dataset_quads d))
        = (if isThingSubject s \<and> isAclRule (getThing d s) \<and> ineffective (getThing d s)
           then [] else filter (\<lambda>q. subject q = s) (dataset_quads d))"
    unfolding filter_filter
    by (auto intro: filter_cong simp: filter_empty_conv)
  then show ?thesis
    by (simp add: removeEmptyAclRules_filter getThing_def datasetMatchSubject_def)
qed

lemma not_ineffective:
  assumes "getIriAll t acl_accessTo \<noteq> [] \<or> getIriAll t acl_default \<noteq> []
           \<or> getIriAll t acl_defaultForNew \<noteq> []"
    and "getIriAll t acl_agent \<noteq> [] \<or> getIriAll t acl_agentGroup \<noteq> []
           \<or> getIriAll t acl_agentClass \<noteq> []"
    and "m \<in> set (getIriAll t acl_mode)"
  shows "\<not> ineffective t"
  using assms by (auto simp: ineffective_def)

lemma grants_removeEmpty:
  assumes "targetedGrant P"
  shows "grants (internal_removeEmptyAclRules d) P m = grants d P m"
proof
  assume "grants (internal_removeEmptyAclRules d) P m"
  then obtain s where s: "isThingSubject s"
    and ty: "Quad s rdf_type (NamedNode acl_Authorization)
               \<in> set (dataset_quads (internal_removeEmptyAclRules d))"
    and p: "P (getThing (internal_removeEmptyAclRules d) s)"
    and mo: "Quad s acl_mode (NamedNode m) \<in> set (dataset_quads (internal_removeEmptyAclRules d))"
    unfolding grants_def by blast
  from ty have keep: "\<not> (isThingSubject s \<and> isAclRule (getThing d s) \<and> ineffective (getThing d s))"
    by (auto simp: removeEmptyAclRules_filter)
  from ty mo have "Quad s rdf_type (NamedNode acl_Authorization) \<in> set (dataset_quads d)"
    and "Quad s acl_mode (NamedNode m) \<in> set (dataset_quads d)"
    by (auto simp: removeEmptyAclRules_filter)
  moreover from p keep have "P (getThing d s)"
    by (simp add: getThing_removeEmpty)
  ultimately show "grants d P m"
    using s unfolding grants_def by blast
next
  assume "grants d P m"
  then obtain s where s: "isThingSubject s"
    and ty: "Quad s rdf_type (NamedNode acl_Authorization) \<in> set (dataset_quads d)"
    and p: "P (getThing d s)"
    and mo: "Quad s acl_mode (NamedNode m) \<in> set (dataset_quads d)"
    unfolding grants_def by blast
  from mo have "m \<in> set (getIriAll (getThing d s) acl_mode)"
    by (simp add: in_getIriAll_getThing)
  moreover from assms have "P (getThing d s) \<longrightarrow>
        (getIriAll (getThing d s) acl_accessTo \<noteq> [] \<or> getIriAll (getThing d s) acl_default \<noteq> []
           \<or> getIriAll (getThing d s) acl_defaultForNew \<noteq> [])
        \<and> (getIriAll (getThing d s) acl_agent \<noteq> [] \<or> getIriAll (getThing d s) acl_agentGroup \<noteq> []
           \<or> getIriAll (getThing d s) acl_agentClass \<noteq> [])"
    unfolding targetedGrant_def by (rule spec)
  ultimately have ne: "\<not> ineffective (getThing d s)"
    using p by (intro not_ineffective[where m=m]) simp_all
  then have "getThing (internal_removeEmptyAclRules d) s = getThing d s"
    by (simp add: getThing_removeEmpty)
  moreover from ne ty mo
  have "Quad s rdf_type (NamedNode acl_Authorization)
               \<in> set (dataset_quads (internal_removeEmptyAclRules d))"
    and "Quad s acl_mode (NamedNode m) \<in> set (dataset_quads (internal_removeEmptyAclRules d))"
    by (auto simp: removeEmptyAclRules_filter)
  ultimately show "grants (internal_removeEmptyAclRules d) P m"
    using s p unfolding grants_def by auto
qed

lemma effectiveAccess_removeEmpty:
  "targetedGrant P \<Longrightarrow> effectiveAccess (internal_removeEmptyAclRules d) P = effectiveAccess d P"
  by (rule effectiveAccess_cong) (rule grants_removeEmpty)

lemma nonempty_if_member: "x \<in> set xs \<Longrightarrow> xs \<noteq> []"
  by auto

lemma targetedGrant_resource:
  "targetedGrant (\<lambda>t. appliesToResource t r \<and> appliesToClass t c)"
  "targetedGrant (\<lambda>t. appliesToResource t r \<and> g \<in> set (getIriAll t acl_agentGroup))"
  "targetedGrant (\<lambda>t. appliesToResource t r \<and> g \<in> set (getIriAll t acl_agent))"
  unfolding targetedGrant_def appliesToResource_def appliesToClass_def
  by (blast dest: nonempty_if_member)+

lemma targetedGrant_default:
  "targetedGrant (\<lambda>t. isDefaultForResource t r \<and> appliesToClass t c)"
  "targetedGrant (\<lambda>t. isDefaultForResource t r \<and> g \<in> set (getIriAll t acl_agentGroup))"
  "targetedGrant (\<lambda>t. isDefaultForResource t r \<and> g \<in> set (getIriAll t acl_agent))"
  unfolding targetedGrant_def isDefaultForResource_def appliesToClass_def
  by (blast dest: nonempty_if_member)+


section \<open>Own ACL before fallback ACL\<close>

lemma grants_resourceGrant:
  "grants d (\<lambda>t. appliesToResource t (internal_accessTo d) \<and> g \<in> set (getIriAll t p)) m
     = resourceGrant d p g m"
  unfolding grants_def resourceGrant_def appliesToResource_def in_getIriAll_getThing
  by force

lemma grants_defaultGrant:
  "grants d (\<lambda>t. isDefaultForResource t (internal_accessTo d) \<and> g \<in> set (getIriAll t p)) m
     = defaultGrant d p g m"
  unfolding grants_def defaultGrant_def isDefaultForResource_def in_getIriAll_getThing
  by force

lemma grants_resourceGrant_fun:
  "grants d (\<lambda>t. appliesToResource t (internal_accessTo d) \<and> g \<in> set (getIriAll t p))
     = resourceGrant d p g"
  by (rule ext) (rule grants_resourceGrant)

lemma grants_defaultGrant_fun:
  "grants d (\<lambda>t. isDefaultForResource t (internal_accessTo d) \<and> g \<in> set (getIriAll t p))
     = defaultGrant d p g"
  by (rule ext) (rule grants_defaultGrant)

lemma effectiveAccess_accessFrom:
  "effectiveAccess d P = accessFrom (grants d P)"
  by (simp add: effectiveAccess_grants accessFrom_def)

lemma getPublicResourceAccess_quads:
  "getPublicResourceAccess acl = accessFrom (resourceGrant acl acl_agentClass foaf_Agent)"
  by (simp add: getPublicResourceAccess_effective appliesToClass_def
                effectiveAccess_accessFrom grants_resourceGrant_fun)

lemma getPublicDefaultAccess_quads:
  "getPublicDefaultAccess acl = accessFrom (defaultGrant acl acl_agentClass foaf_Agent)"
  by (simp add: getPublicDefaultAccess_effective appliesToClass_def
                effectiveAccess_accessFrom grants_defaultGrant_fun)

lemma getGroupResourceAccess_quads:
  "getGroupResourceAccess acl g = accessFrom (resourceGrant acl acl_agentGroup g)"
  by (simp add: getGroupResourceAccess_effective effectiveAccess_accessFrom
                grants_resourceGrant_fun)

lemma getGroupDefaultAccess_quads:
  "getGroupDefaultAccess acl g = accessFrom (defaultGrant acl acl_agentGroup g)"
  by (simp add: getGroupDefaultAccess_effective effectiveAccess_accessFrom
                grants_defaultGrant_fun)

text \<open>
  C4. For a resource with ACL information attached: when it has its own resource ACL
  (\<open>hasResourceAcl\<close>), \<open>getPublicAccess\<close> and \<open>getGroupAccess\<close> are the modes
  granted by that ACL's Authorizations scoped to the resource with \<open>acl:accessTo\<close>,
  and by nothing else: not by its default rules, and not by the fallback ACL, whatever
  fallback ACL is attached. The modes granted by the fallback ACL's default rules are
  the result only when there is no resource ACL; when there is neither, the result is
  null, not all-false.
\<close>

theorem own_acl_precedes_fallback:
  "(hasResourceAcl resource \<longrightarrow>
      (\<exists>acl. resourceAcl (internal_acl resource) = Some acl
         \<and> (\<forall>fb. getPublicAccess
                    (resource\<lparr> internal_acl := (internal_acl resource)\<lparr> fallbackAcl := fb \<rparr> \<rparr>)
                  = Some (accessFrom (resourceGrant acl acl_agentClass foaf_Agent))
                \<and> getGroupAccess
                    (resource\<lparr> internal_acl := (internal_acl resource)\<lparr> fallbackAcl := fb \<rparr> \<rparr>)
                    groupIri
                  = Some (accessFrom (resourceGrant acl acl_agentGroup groupIri)))))
   \<and> (\<not> hasResourceAcl resource \<and> fallbackAcl (internal_acl resource) = Some fallback \<longrightarrow>
        getPublicAccess resource
          = Some (accessFrom (defaultGrant fallback acl_agentClass foaf_Agent))
        \<and> getGroupAccess resource groupIri
          = Some (accessFrom (defaultGrant fallback acl_agentGroup groupIri)))
   \<and> (\<not> hasResourceAcl resource \<and> fallbackAcl (internal_acl resource) = None \<longrightarrow>
        getPublicAccess resource = None \<and> getGroupAccess resource groupIri = None
        \<and> getPublicAccess resource \<noteq> Some noAccess)"
  unfolding getPublicResourceAccess_quads[symmetric] getPublicDefaultAccess_quads[symmetric]
    getGroupResourceAccess_quads[symmetric] getGroupDefaultAccess_quads[symmetric]
  by (auto simp: getPublicAccess_def getGroupAccess_def hasResourceAcl_def
                 hasFallbackAcl_def getSourceUrl_def
           split: option.splits)

theorem own_acl_precedes_fallback_witness:
  "hasResourceAcl exampleOwn
   \<and> resourceAcl (internal_acl exampleOwn) = Some exampleOwnAcl
   \<and> fallbackAcl (internal_acl exampleOwn) = Some exampleFallback
   \<and> accessFrom (resourceGrant exampleOwnAcl acl_agentClass foaf_Agent)
       = noAccess\<lparr> control_access := True \<rparr>
   \<and> accessFrom (defaultGrant exampleOwnAcl acl_agentClass foaf_Agent)
       = noAccess\<lparr> append_access := True, write_access := True \<rparr>
   \<and> accessFrom (defaultGrant exampleFallback acl_agentClass foaf_Agent)
       = noAccess\<lparr> read_access := True \<rparr>
   \<and> getPublicAccess exampleOwn = Some (noAccess\<lparr> control_access := True \<rparr>)
   \<and> getGroupAccess exampleOwn ''https://some.pod/groups#friends''
       = Some (noAccess\<lparr> append_access := True \<rparr>)
   \<and> \<not> hasResourceAcl exampleChild
   \<and> getPublicAccess exampleChild = Some (noAccess\<lparr> read_access := True \<rparr>)"
proof -
  have h: "hasResourceAcl exampleOwn" by code_simp
  have a: "resourceAcl (internal_acl exampleOwn) = Some exampleOwnAcl" by code_simp
  have f: "fallbackAcl (internal_acl exampleOwn) = Some exampleFallback" by code_simp
  have e: "exampleOwn\<lparr> internal_acl := (internal_acl exampleOwn)\<lparr> fallbackAcl := Some exampleFallback \<rparr> \<rparr>
             = exampleOwn"
    by (simp add: exampleOwn_def)
  have p: "accessFrom (resourceGrant exampleOwnAcl acl_agentClass foaf_Agent)
       = noAccess\<lparr> control_access := True \<rparr>"
    by code_simp
  have pd: "accessFrom (defaultGrant exampleOwnAcl acl_agentClass foaf_Agent)
       = noAccess\<lparr> append_access := True, write_access := True \<rparr>"
    by code_simp
  have g: "accessFrom (resourceGrant exampleOwnAcl acl_agentGroup ''https://some.pod/groups#friends'')
       = noAccess\<lparr> append_access := True \<rparr>"
    by code_simp
  have d: "accessFrom (defaultGrant exampleFallback acl_agentClass foaf_Agent)
       = noAccess\<lparr> read_access := True \<rparr>"
    by code_simp
  have n: "\<not> hasResourceAcl exampleChild" by code_simp
  have f': "fallbackAcl (internal_acl exampleChild) = Some exampleFallback" by code_simp
  note own = own_acl_precedes_fallback
    [of exampleOwn "''https://some.pod/groups#friends''" exampleFallback]
  note child = own_acl_precedes_fallback
    [of exampleChild "''https://some.pod/groups#friends''" exampleFallback]
  from own h a have "getPublicAccess
        (exampleOwn\<lparr> internal_acl := (internal_acl exampleOwn)\<lparr> fallbackAcl := Some exampleFallback \<rparr> \<rparr>)
        = Some (accessFrom (resourceGrant exampleOwnAcl acl_agentClass foaf_Agent))"
    and "getGroupAccess
        (exampleOwn\<lparr> internal_acl := (internal_acl exampleOwn)\<lparr> fallbackAcl := Some exampleFallback \<rparr> \<rparr>)
        ''https://some.pod/groups#friends''
        = Some (accessFrom (resourceGrant exampleOwnAcl acl_agentGroup
                  ''https://some.pod/groups#friends''))"
    by auto
  then have 1: "getPublicAccess exampleOwn = Some (noAccess\<lparr> control_access := True \<rparr>)"
    and 2: "getGroupAccess exampleOwn ''https://some.pod/groups#friends''
       = Some (noAccess\<lparr> append_access := True \<rparr>)"
    unfolding e p g by simp_all
  from child n f' have "getPublicAccess exampleChild
      = Some (accessFrom (defaultGrant exampleFallback acl_agentClass foaf_Agent))"
    by blast
  then have 3: "getPublicAccess exampleChild = Some (noAccess\<lparr> read_access := True \<rparr>)"
    unfolding d .
  from h a f p pd d 1 2 n 3 show ?thesis by (intro conjI)
qed

section \<open>Initialising an ACL from the fallback ACL\<close>

lemma map_thing_subject_getThingAll: "map thing_subject (getThingAll d) = subjectNodes (dataset_quads d)"
  by (simp add: getThingAll_def thing_subject_getThing comp_def)

lemma distinct_subjects_getAclRules: "distinct (map thing_subject (filter P (internal_getAclRules d)))"
  unfolding internal_getAclRules_def
  by (intro distinct_map_filter) (simp add: map_thing_subject_getThingAll distinct_subjectNodes)

lemma addIri_subject [simp]: "thing_subject (addIri t p v) = thing_subject t"
  by (simp add: addIri_def)
lemma removeAll_thing_subject [simp]: "thing_subject (removeAll_thing t p) = thing_subject t"
  by (simp add: removeAll_thing_def)
lemma setIri_subject [simp]: "thing_subject (setIri t p v) = thing_subject t"
  by (simp add: setIri_def)
lemma removeIri_subject [simp]: "thing_subject (removeIri t p v) = thing_subject t"
  by (simp add: removeIri_def)

lemma addIri_quads:
  "set (thing_quads (addIri t p v)) = insert (Quad (thing_subject t) p (NamedNode v)) (set (thing_quads t))"
  by (simp add: addIri_def set_datasetAdd)
lemma removeAll_thing_quads:
  "set (thing_quads (removeAll_thing t p)) = {q \<in> set (thing_quads t). predicate q \<noteq> p}"
  by (simp add: removeAll_thing_def)
lemma setIri_quads:
  "set (thing_quads (setIri t p v)) =
     insert (Quad (thing_subject t) p (NamedNode v)) {q \<in> set (thing_quads t). predicate q \<noteq> p}"
  by (simp add: setIri_def addIri_quads removeAll_thing_quads)
lemma removeIri_quads:
  "set (thing_quads (removeIri t p v)) =
     {q \<in> set (thing_quads t). \<not> (predicate q = p \<and> object q = NamedNode v)}"
  by (simp add: removeIri_def)

lemma wellFormed_addIri: "wellFormedThing t \<Longrightarrow> wellFormedThing (addIri t p v)"
  by (simp add: wellFormedThing_def addIri_quads)
lemma wellFormed_removeAll: "wellFormedThing t \<Longrightarrow> wellFormedThing (removeAll_thing t p)"
  by (simp add: wellFormedThing_def removeAll_thing_quads)
lemma wellFormed_setIri: "wellFormedThing t \<Longrightarrow> wellFormedThing (setIri t p v)"
  by (simp add: wellFormedThing_def setIri_quads)
lemma wellFormed_removeIri: "wellFormedThing t \<Longrightarrow> wellFormedThing (removeIri t p v)"
  by (simp add: wellFormedThing_def removeIri_quads)

lemma in_getAclRules:
  "t \<in> set (internal_getAclRules d) \<longleftrightarrow>
     (\<exists>s. t = getThing d s \<and> isThingSubject s
        \<and> Quad s rdf_type (NamedNode acl_Authorization) \<in> set (dataset_quads d))"
  unfolding set_getAclRules by blast

lemma quad_getThing: "q \<in> set (thing_quads (getThing d s)) \<longleftrightarrow> q \<in> set (dataset_quads d) \<and> subject q = s"
  by (auto simp: getThing_def datasetMatchSubject_def)

lemma importRule_eq:
  "(\<lambda>rule. setIri (removeAll_thing (removeAll_thing rule acl_default) acl_defaultForNew)
             acl_accessTo target) = importRule target"
  by (simp add: importRule_def fun_eq_iff)

lemma quad_in_created:
  assumes "createAclFromFallbackAcl resource = Some acl"
    and "fallbackAcl (internal_acl resource) = Some fallback"
  shows "Quad s p ob \<in> set (dataset_quads acl) \<longleftrightarrow>
     isThingSubject s
     \<and> Quad s rdf_type (NamedNode acl_Authorization) \<in> set (dataset_quads fallback)
     \<and> isDefaultForResource (getThing fallback s) (internal_accessTo fallback)
     \<and> ((p \<noteq> acl_default \<and> p \<noteq> acl_defaultForNew \<and> p \<noteq> acl_accessTo
            \<and> Quad s p ob \<in> set (dataset_quads fallback))
         \<or> (p = acl_accessTo \<and> ob = NamedNode (getSourceUrl resource)))"
proof -
  let ?D = "filter (\<lambda>rule. isDefaultForResource rule (internal_accessTo fallback))
              (internal_getAclRules fallback)"
  let ?R = "map (importRule (getSourceUrl resource)) ?D"
  from assms obtain empty where e: "createAcl resource = Some empty"
    and acl: "acl = foldl setThing empty ?R"
    by (auto simp: createAclFromFallbackAcl_def Let_def importRule_eq
                   internal_getDefaultAclRulesForResource_def split: option.splits)
  have eq: "dataset_quads empty = []"
    using e by (auto simp: createAcl_def split: option.splits)
  have "map thing_subject ?R = map thing_subject ?D"
    by (simp add: importRule_def comp_def)
  then have dist: "distinct (map thing_subject ?R)"
    by (simp only: distinct_subjects_getAclRules)
  have wf: "\<forall>t \<in> set ?R. wellFormedThing t"
    by (auto simp: importRule_def in_getAclRules
             intro!: wellFormed_setIri wellFormed_removeAll wellFormed_getThing)
  have "set (dataset_quads acl) = (\<Union>t \<in> set ?R. set (thing_quads t))"
    unfolding acl foldl_setThing_quads[OF dist wf] by (simp add: eq)
  also have "\<dots> = (\<Union>t \<in> set ?D. set (thing_quads (importRule (getSourceUrl resource) t)))"
    by simp
  finally have "Quad s p ob \<in> set (dataset_quads acl) \<longleftrightarrow>
      (\<exists>t \<in> set ?D. Quad s p ob \<in> set (thing_quads (importRule (getSourceUrl resource) t)))"
    by simp
  also have "\<dots> \<longleftrightarrow>
     isThingSubject s
     \<and> Quad s rdf_type (NamedNode acl_Authorization) \<in> set (dataset_quads fallback)
     \<and> isDefaultForResource (getThing fallback s) (internal_accessTo fallback)
     \<and> ((p \<noteq> acl_default \<and> p \<noteq> acl_defaultForNew \<and> p \<noteq> acl_accessTo
            \<and> Quad s p ob \<in> set (dataset_quads fallback))
         \<or> (p = acl_accessTo \<and> ob = NamedNode (getSourceUrl resource)))"
    by (auto simp: in_getAclRules importRule_def setIri_quads removeAll_thing_quads quad_getThing
                   thing_subject_getThing)
  finally show ?thesis .
qed


lemma created_accessTo:
  assumes "createAclFromFallbackAcl resource = Some acl"
  shows "internal_accessTo acl = getSourceUrl resource"
  using assms
  by (auto simp: createAclFromFallbackAcl_def createAcl_def Let_def split: option.splits)

lemma grants_created:
  assumes c: "createAclFromFallbackAcl resource = Some acl"
    and f: "fallbackAcl (internal_acl resource) = Some fallback"
    and gp: "gp \<noteq> acl_default" "gp \<noteq> acl_defaultForNew" "gp \<noteq> acl_accessTo"
  shows "grants acl (\<lambda>t. appliesToResource t (internal_accessTo acl)
                          \<and> v \<in> set (getIriAll t gp)) m
       = grants fallback (\<lambda>t. isDefaultForResource t (internal_accessTo fallback)
                          \<and> v \<in> set (getIriAll t gp)) m"
  unfolding grants_def appliesToResource_def in_getIriAll_getThing
    quad_in_created[OF c f] created_accessTo[OF c]
  using gp by auto

lemma created_exists:
  assumes "hasAccessibleAcl resource" and "fallbackAcl (internal_acl resource) = Some fallback"
  shows "\<exists>acl. createAclFromFallbackAcl resource = Some acl"
  using assms
  by (auto simp: createAclFromFallbackAcl_def createAcl_def hasAccessibleAcl_def Let_def
           split: option.splits)


text \<open>
  C7. For a resource with an advertised ACL URL and an attached fallback ACL,
  \<open>createAclFromFallbackAcl\<close> yields an ACL bound to the resource whose
  resource-scoped effective access equals the fallback ACL's default-scoped effective
  access, for the public, for every group and for every agent; and no statement of a
  fallback rule that is not a default rule for the fallback's container is copied.
\<close>

theorem createAclFromFallbackAcl_roundtrip:
  assumes "hasAccessibleAcl resource"
    and "fallbackAcl (internal_acl resource) = Some fallback"
  shows "\<exists>acl. createAclFromFallbackAcl resource = Some acl
     \<and> internal_accessTo acl = getSourceUrl resource
     \<and> getPublicResourceAccess acl = getPublicDefaultAccess fallback
     \<and> (\<forall>g. getGroupResourceAccess acl g = getGroupDefaultAccess fallback g)
     \<and> (\<forall>a. getAgentResourceAccess acl a = getAgentDefaultAccess fallback a)
     \<and> (\<forall>rule \<in> set (internal_getAclRules fallback).
           \<not> isDefaultForResource rule (internal_accessTo fallback)
           \<longrightarrow> thing_subject rule \<notin> subject ` set (dataset_quads acl))"
proof -
  from created_exists[OF assms] obtain acl
    where c: "createAclFromFallbackAcl resource = Some acl" ..
  note f = assms(2)
  have pub: "getPublicResourceAccess acl = getPublicDefaultAccess fallback"
    unfolding getPublicResourceAccess_effective getPublicDefaultAccess_effective
      appliesToClass_def
    by (rule effectiveAccess_cong) (rule grants_created[OF c f], simp_all)
  have grp: "getGroupResourceAccess acl g = getGroupDefaultAccess fallback g" for g
    unfolding getGroupResourceAccess_effective getGroupDefaultAccess_effective
    by (rule effectiveAccess_cong) (rule grants_created[OF c f], simp_all)
  have agt: "getAgentResourceAccess acl a = getAgentDefaultAccess fallback a" for a
    unfolding getAgentResourceAccess_effective getAgentDefaultAccess_effective
    by (rule effectiveAccess_cong) (rule grants_created[OF c f], simp_all)
  have notcopied: "thing_subject rule \<notin> subject ` set (dataset_quads acl)"
    if r: "rule \<in> set (internal_getAclRules fallback)"
      and nd: "\<not> isDefaultForResource rule (internal_accessTo fallback)" for rule
  proof
    assume "thing_subject rule \<in> subject ` set (dataset_quads acl)"
    then obtain q where q: "q \<in> set (dataset_quads acl)" and s: "subject q = thing_subject rule"
      by auto
    from r obtain s' where rule: "rule = getThing fallback s'"
      unfolding in_getAclRules by blast
    obtain s0 p ob where qq: "q = Quad s0 p ob" by (cases q)
    with q have "isDefaultForResource (getThing fallback s0) (internal_accessTo fallback)"
      by (simp add: quad_in_created[OF c f])
    moreover have "s0 = s'" using s qq rule by (simp add: thing_subject_getThing)
    ultimately show False using nd rule by simp
  qed
  from c created_accessTo[OF c] pub grp agt notcopied show ?thesis by blast
qed

theorem createAclFromFallbackAcl_roundtrip_witness:
  "hasAccessibleAcl exampleChild
   \<and> fallbackAcl (internal_acl exampleChild) = Some exampleFallback
   \<and> (\<exists>acl. createAclFromFallbackAcl exampleChild = Some acl
        \<and> internal_accessTo acl = ''https://some.pod/resource''
        \<and> getPublicResourceAccess acl
            = \<lparr> read_access = True, append_access = False,
                 write_access = False, control_access = False \<rparr>
        \<and> NamedNode ''#o'' \<notin> subject ` set (dataset_quads acl))"
proof -
  have h1: "hasAccessibleAcl exampleChild" by code_simp
  have h2: "fallbackAcl (internal_acl exampleChild) = Some exampleFallback" by code_simp
  have u: "getSourceUrl exampleChild = ''https://some.pod/resource''" by code_simp
  have p: "getPublicDefaultAccess exampleFallback
            = \<lparr> read_access = True, append_access = False,
                 write_access = False, control_access = False \<rparr>" by code_simp
  have r: "getThing exampleFallback (NamedNode ''#o'') \<in> set (internal_getAclRules exampleFallback)"
    by code_simp
  have nd: "\<not> isDefaultForResource (getThing exampleFallback (NamedNode ''#o''))
                 (internal_accessTo exampleFallback)"
    by code_simp
  from createAclFromFallbackAcl_roundtrip [OF h1 h2] obtain acl
    where a: "createAclFromFallbackAcl exampleChild = Some acl"
      "internal_accessTo acl = getSourceUrl exampleChild"
      "getPublicResourceAccess acl = getPublicDefaultAccess exampleFallback"
      "\<forall>rule \<in> set (internal_getAclRules exampleFallback).
           \<not> isDefaultForResource rule (internal_accessTo exampleFallback)
           \<longrightarrow> thing_subject rule \<notin> subject ` set (dataset_quads acl)"
    by blast
  from a(4) r nd have "thing_subject (getThing exampleFallback (NamedNode ''#o''))
      \<notin> subject ` set (dataset_quads acl)"
    by blast
  then have "NamedNode ''#o'' \<notin> subject ` set (dataset_quads acl)"
    by (simp add: thing_subject_getThing)
  with h1 h2 a(1) a(2) a(3) u p show ?thesis by auto
qed

section \<open>Rules written by \<open>setPublicResourceAccess\<close>\<close>

lemma createThing_subject [simp]: "thing_subject (createThing n) = LocalNode n"
  by (simp add: createThing_def)

lemma createThing_quads [simp]: "thing_quads (createThing n) = []"
  by (simp add: createThing_def)

lemma initialise_subject [simp]:
  "thing_subject (internal_initialiseAclRule n a) = LocalNode n"
  by (simp add: internal_initialiseAclRule_def Let_def)

lemma initialise_quads:
  "set (thing_quads (internal_initialiseAclRule n a)) =
     insert (Quad (LocalNode n) rdf_type (NamedNode acl_Authorization))
       {Quad (LocalNode n) acl_mode (NamedNode m) | m. m \<in> initModes a}"
  by (auto simp: internal_initialiseAclRule_def Let_def addIri_quads setIri_quads initModes_def)

lemma copyIris_subject [simp]: "thing_subject (copyIris src out p) = thing_subject out"
proof -
  have "thing_subject (foldl (\<lambda>outputRule iriTarget. addIri outputRule p iriTarget) out vs)
          = thing_subject out" for vs
    by (induction vs arbitrary: out) simp_all
  then show ?thesis by (simp add: copyIris_def)
qed

lemma copyIris_quads:
  "set (thing_quads (copyIris src out p)) =
     set (thing_quads out)
     \<union> {Quad (thing_subject out) p (NamedNode v) | v. v \<in> set (getIriAll src p)}"
proof -
  have "set (thing_quads (foldl (\<lambda>outputRule iriTarget. addIri outputRule p iriTarget) out vs))
          = set (thing_quads out) \<union> {Quad (thing_subject out) p (NamedNode v) | v. v \<in> set vs}" for vs
    by (induction vs arbitrary: out) (auto simp: addIri_quads)
  then show ?thesis by (simp add: copyIris_def)
qed

lemma duplicate_subject [simp]:
  "thing_subject (internal_duplicateAclRule n t) = LocalNode n"
  by (simp add: internal_duplicateAclRule_def Let_def)

lemma duplicate_wellFormed: "wellFormedThing (internal_duplicateAclRule n t)"
  by (auto simp: wellFormedThing_def internal_duplicateAclRule_def Let_def copyIris_quads
                 setIri_quads)

lemma initialise_wellFormed: "wellFormedThing (internal_initialiseAclRule n a)"
  by (auto simp: wellFormedThing_def initialise_quads)

lemma removePublic_fst_subject [simp]:
  "thing_subject (fst (removePublicFromRule n t r k)) = thing_subject t"
  by (simp add: removePublicFromRule_def Let_def)

lemma removePublic_snd_subject [simp]:
  "thing_subject (snd (removePublicFromRule n t r k)) = LocalNode n"
  by (simp add: removePublicFromRule_def Let_def)

lemma removePublic_fst_quads:
  "set (thing_quads (fst (removePublicFromRule n t r k))) =
     {q \<in> set (thing_quads t). \<not> (predicate q = acl_agentClass \<and> object q = NamedNode foaf_Agent)}"
  by (auto simp: removePublicFromRule_def Let_def removeIri_quads in_getIriAll)

lemma removePublic_fst_wellFormed:
  "wellFormedThing t \<Longrightarrow> wellFormedThing (fst (removePublicFromRule n t r k))"
  by (simp add: wellFormedThing_def removePublic_fst_quads)

lemma removePublic_snd_wellFormed:
  "wellFormedThing (snd (removePublicFromRule n t r k))"
  by (auto simp: removePublicFromRule_def Let_def
           intro!: wellFormed_removeIri wellFormed_removeAll wellFormed_setIri
                   duplicate_wellFormed initialise_wellFormed)

lemma removePublic_snd_no_grantee:
  assumes "q \<in> set (thing_quads (snd (removePublicFromRule n t r k)))"
  shows "predicate q \<noteq> acl_agent \<and> predicate q \<noteq> acl_agentGroup"
  using assms
  by (auto simp: removePublicFromRule_def Let_def removeIri_quads removeAll_thing_quads
                 initialise_quads split: if_splits)

lemma removePublic_snd_not_resource:
  assumes "q \<in> set (thing_quads (snd (removePublicFromRule n t r ResourceRule)))"
  shows "\<not> (predicate q = acl_accessTo \<and> object q = NamedNode r)"
  using assms
  by (auto simp: removePublicFromRule_def Let_def removeIri_quads initialise_quads
           split: if_splits)


lemma filterStep_splitRules:
  "filterStep names r acc ir = foldl setThing acc (splitRules names r ir)"
  by (simp add: filterStep_def splitRules_def Let_def case_prod_beta)

lemma foldl_filterStep:
  "foldl (filterStep names r) acc ps = foldl setThing acc (concat (map (splitRules names r) ps))"
  by (induction ps arbitrary: acc) (simp_all add: filterStep_splitRules)

lemma setPublicResourceAccess_updatedAcl:
  "setPublicResourceAccess names d a = internal_removeEmptyAclRules (updatedAcl names d a)"
  by (simp add: setPublicResourceAccess_def updatedAcl_def Let_def foldl_filterStep publicRule_def)

lemma publicRule_subject [simp]: "thing_subject (publicRule n r a) = LocalNode n"
  by (simp add: publicRule_def)

lemma publicRule_quads:
  "set (thing_quads (publicRule n r a)) =
     {Quad (LocalNode n) rdf_type (NamedNode acl_Authorization),
      Quad (LocalNode n) acl_accessTo (NamedNode r),
      Quad (LocalNode n) acl_agentClass (NamedNode foaf_Agent)}
     \<union> {Quad (LocalNode n) acl_mode (NamedNode m) | m. m \<in> initModes a}"
  by (auto simp: publicRule_def setIri_quads initialise_quads)

lemma publicRule_wellFormed: "wellFormedThing (publicRule n r a)"
  by (auto simp: wellFormedThing_def publicRule_quads)

lemma splitRules_subjects:
  "map thing_subject (splitRules names r ir) = [thing_subject (snd ir), LocalNode (names (fst ir))]"
  by (simp add: splitRules_def)

lemma set_concat_split_subjects:
  "set (concat (map (\<lambda>ir. [thing_subject (snd ir), LocalNode (names (fst ir))]) ps))
     = (thing_subject \<circ> snd) ` set ps \<union> (\<lambda>ir. LocalNode (names (fst ir))) ` set ps"
  by (induction ps) auto

lemma distinct_concat_split_subjects:
  assumes "distinct (map (thing_subject \<circ> snd) ps)"
    and "distinct (map (names \<circ> fst) ps)"
    and "\<forall>ir \<in> set ps. \<forall>js \<in> set ps. thing_subject (snd ir) \<noteq> LocalNode (names (fst js))"
  shows "distinct (concat (map (\<lambda>ir. [thing_subject (snd ir), LocalNode (names (fst ir))]) ps))"
  using assms
proof (induction ps)
  case Nil
  show ?case by simp
next
  case (Cons ir ps)
  have "distinct (concat (map (\<lambda>ir. [thing_subject (snd ir), LocalNode (names (fst ir))]) ps))"
    using Cons.prems by (intro Cons.IH) auto
  moreover have "thing_subject (snd ir) \<noteq> LocalNode (names (fst ir))"
    using Cons.prems(3) by simp
  moreover have "thing_subject (snd ir)
      \<notin> set (concat (map (\<lambda>ir. [thing_subject (snd ir), LocalNode (names (fst ir))]) ps))"
    unfolding set_concat_split_subjects using Cons.prems by (auto simp: image_iff)
  moreover have "LocalNode (names (fst ir))
      \<notin> set (concat (map (\<lambda>ir. [thing_subject (snd ir), LocalNode (names (fst ir))]) ps))"
    unfolding set_concat_split_subjects using Cons.prems by (auto simp: image_iff)
  ultimately show ?case by simp
qed


lemma in_set_enumerate0:
  "ir \<in> set (enumerate 0 xs) \<longleftrightarrow> fst ir < length xs \<and> snd ir = xs ! fst ir"
  by (cases ir) (auto simp: in_set_enumerate_eq)

lemma in_getThingAll:
  "t \<in> set (getThingAll d) \<longleftrightarrow>
     (\<exists>s. t = getThing d s \<and> isThingSubject s \<and> s \<in> subject ` set (dataset_quads d))"
  by (auto simp: getThingAll_def set_subjectNodes)

lemma freshNames_lt:
  assumes "freshNames names d" and "i \<le> length (getThingAll d)"
  shows "LocalNode (names i) \<notin> subject ` set (dataset_quads d)"
  using assms by (simp add: freshNames_def Let_def del: upt_Suc)

lemma freshNames_inj:
  assumes "freshNames names d" and "i \<le> length (getThingAll d)" and "j \<le> length (getThingAll d)"
    and "names i = names j"
  shows "i = j"
proof -
  from assms(1) have "distinct (map names [0..<Suc (length (getThingAll d))])"
    by (simp add: freshNames_def Let_def del: upt_Suc)
  then have "inj_on names (set [0..<Suc (length (getThingAll d))])"
    by (simp only: distinct_map)
  moreover have "i \<in> set [0..<Suc (length (getThingAll d))]"
    and "j \<in> set [0..<Suc (length (getThingAll d))]"
    using assms(2,3) by (simp_all del: upt_Suc)
  ultimately show ?thesis
    using assms(4) by (meson inj_onD)
qed

lemma split_subjects_distinct:
  assumes f: "freshNames names d"
  shows "distinct (map thing_subject
           (concat (map (splitRules names r) (enumerate 0 (getThingAll d)))
            @ [publicRule (names (length (getThingAll d))) r a]))"
proof -
  let ?ps = "enumerate 0 (getThingAll d)"
  let ?n = "length (getThingAll d)"
  have m: "map thing_subject (concat (map (splitRules names r) ?ps))
        = concat (map (\<lambda>ir. [thing_subject (snd ir), LocalNode (names (fst ir))]) ?ps)"
    by (simp add: map_concat comp_def splitRules_subjects)
  have d1: "distinct (map (thing_subject \<circ> snd) ?ps)"
    using distinct_subjectNodes[of "dataset_quads d"]
    by (simp add: map_thing_subject_getThingAll flip: map_map)
  have "distinct (map names [0..<Suc ?n])"
    using f by (simp add: freshNames_def Let_def del: upt_Suc)
  then have d2: "distinct (map (names \<circ> fst) ?ps)"
    by (simp flip: map_map)
  have d3: "\<forall>ir \<in> set ?ps. \<forall>js \<in> set ?ps. thing_subject (snd ir) \<noteq> LocalNode (names (fst js))"
  proof (intro ballI)
    fix ir js assume ir: "ir \<in> set ?ps" and js: "js \<in> set ?ps"
    from ir have "snd ir \<in> set (getThingAll d)"
      by (auto simp: in_set_enumerate0)
    then have "thing_subject (snd ir) \<in> subject ` set (dataset_quads d)"
      by (auto simp: in_getThingAll thing_subject_getThing)
    moreover from js have "fst js \<le> ?n" by (simp add: in_set_enumerate0)
    then have "LocalNode (names (fst js)) \<notin> subject ` set (dataset_quads d)"
      by (rule freshNames_lt[OF f])
    ultimately show "thing_subject (snd ir) \<noteq> LocalNode (names (fst js))" by metis
  qed
  have c: "distinct (concat (map (\<lambda>ir. [thing_subject (snd ir), LocalNode (names (fst ir))]) ?ps))"
    by (rule distinct_concat_split_subjects[OF d1 d2 d3])
  have n1: "LocalNode (names ?n) \<notin> (thing_subject \<circ> snd) ` set ?ps"
  proof
    assume "LocalNode (names ?n) \<in> (thing_subject \<circ> snd) ` set ?ps"
    then obtain ir where ir: "ir \<in> set ?ps" and e: "LocalNode (names ?n) = thing_subject (snd ir)"
      by auto
    from ir have "snd ir \<in> set (getThingAll d)"
      by (auto simp: in_set_enumerate0)
    then have "thing_subject (snd ir) \<in> subject ` set (dataset_quads d)"
      by (auto simp: in_getThingAll thing_subject_getThing)
    with e freshNames_lt[OF f order_refl] show False by simp
  qed
  have n2: "LocalNode (names ?n) \<notin> (\<lambda>ir. LocalNode (names (fst ir))) ` set ?ps"
  proof
    assume "LocalNode (names ?n) \<in> (\<lambda>ir. LocalNode (names (fst ir))) ` set ?ps"
    then obtain ir where ir: "ir \<in> set ?ps" and e: "names ?n = names (fst ir)"
      by auto
    from ir have lt: "fst ir < ?n" by (simp add: in_set_enumerate0)
    then have "fst ir \<le> ?n" by simp
    from freshNames_inj[OF f order_refl this e] lt show False by simp
  qed
  show ?thesis
    unfolding map_append m
    using c n1 n2 by (auto simp add: set_concat_split_subjects)
qed


section \<open>The statements stored after the loop\<close>

lemma split_wellFormed:
  "\<forall>t \<in> set (concat (map (splitRules names r) (enumerate 0 (getThingAll d)))
            @ [publicRule n r a]). wellFormedThing t"
  by (auto simp: splitRules_def in_set_enumerate0 publicRule_wellFormed
                 removePublic_snd_wellFormed getThingAll_def
           intro!: removePublic_fst_wellFormed wellFormed_getThing)

lemma split_subject_set:
  "thing_subject ` set (concat (map (splitRules names r) (enumerate 0 (getThingAll d))))
     \<supseteq> {s \<in> subject ` set (dataset_quads d). isThingSubject s}"
proof
  fix s assume "s \<in> {s \<in> subject ` set (dataset_quads d). isThingSubject s}"
  then have "getThing d s \<in> set (getThingAll d)"
    by (auto simp: in_getThingAll)
  then obtain i where i: "i < length (getThingAll d)" and g: "getThingAll d ! i = getThing d s"
    by (auto simp: in_set_conv_nth)
  then have "(i, getThing d s) \<in> set (enumerate 0 (getThingAll d))"
    by (simp add: in_set_enumerate0)
  then have "fst (removePublicFromRule (names i) (getThing d s) r ResourceRule)
      \<in> set (concat (map (splitRules names r) (enumerate 0 (getThingAll d))))"
    by (force simp: splitRules_def)
  then have "thing_subject (fst (removePublicFromRule (names i) (getThing d s) r ResourceRule))
      \<in> thing_subject ` set (concat (map (splitRules names r) (enumerate 0 (getThingAll d))))"
    by (rule imageI)
  then show "s \<in> thing_subject ` set (concat (map (splitRules names r) (enumerate 0 (getThingAll d))))"
    by (simp add: thing_subject_getThing)
qed

lemma filtered_union:
  "(\<Union>ir \<in> set (enumerate 0 (getThingAll d)).
      set (thing_quads (fst (removePublicFromRule (names (fst ir)) (snd ir) r k))))
   = {q \<in> set (dataset_quads d). isThingSubject (subject q)
        \<and> \<not> (predicate q = acl_agentClass \<and> object q = NamedNode foaf_Agent)}"
  (is "?L = ?R")
proof (intro set_eqI iffI)
  fix q assume "q \<in> ?L"
  then obtain ir where ir: "ir \<in> set (enumerate 0 (getThingAll d))"
    and q: "q \<in> set (thing_quads (fst (removePublicFromRule (names (fst ir)) (snd ir) r k)))"
    by blast
  from ir have "snd ir \<in> set (getThingAll d)" by (auto simp: in_set_enumerate0)
  then obtain s where s: "snd ir = getThing d s" "isThingSubject s"
    by (auto simp: in_getThingAll)
  from q s show "q \<in> ?R"
    by (auto simp: removePublic_fst_quads quad_getThing)
next
  fix q assume q: "q \<in> ?R"
  then have "getThing d (subject q) \<in> set (getThingAll d)"
    by (auto simp: in_getThingAll)
  then obtain i where i: "i < length (getThingAll d)"
    and g: "getThingAll d ! i = getThing d (subject q)"
    by (auto simp: in_set_conv_nth)
  then have m: "(i, getThing d (subject q)) \<in> set (enumerate 0 (getThingAll d))"
    by (simp add: in_set_enumerate0)
  from q have "q \<in> set (thing_quads (fst (removePublicFromRule (names i) (getThing d (subject q)) r k)))"
    by (auto simp: removePublic_fst_quads quad_getThing)
  with m show "q \<in> ?L" by force
qed

lemma updatedAcl_quads:
  assumes f: "freshNames names d"
  shows "set (dataset_quads (updatedAcl names d a)) =
     {q \<in> set (dataset_quads d).
        \<not> (isThingSubject (subject q) \<and> predicate q = acl_agentClass
            \<and> object q = NamedNode foaf_Agent)}
     \<union> remainders names d
     \<union> set (thing_quads (publicRule (names (length (getThingAll d))) (internal_accessTo d) a))"
proof -
  let ?r = "internal_accessTo d"
  let ?ps = "enumerate 0 (getThingAll d)"
  let ?S = "concat (map (splitRules names ?r) ?ps)"
  let ?pub = "publicRule (names (length (getThingAll d))) ?r a"
  have keep: "{q \<in> set (dataset_quads d).
        \<not> (isThingSubject (subject q) \<and> subject q \<in> thing_subject ` set (?S @ [?pub]))}
      = {q \<in> set (dataset_quads d). \<not> isThingSubject (subject q)}"
    using split_subject_set[of d names ?r] by auto
  have un: "(\<Union>t \<in> set ?S. set (thing_quads t))
      = (\<Union>ir \<in> set ?ps. set (thing_quads (fst (removePublicFromRule (names (fst ir)) (snd ir) ?r ResourceRule))))
        \<union> remainders names d"
    by (auto simp: splitRules_def remainders_def)
  have "set (dataset_quads (updatedAcl names d a)) =
      {q \<in> set (dataset_quads d). \<not> isThingSubject (subject q)}
      \<union> (\<Union>t \<in> set (?S @ [?pub]). set (thing_quads t))"
    unfolding updatedAcl_def
      foldl_setThing_quads[OF split_subjects_distinct[OF f] split_wellFormed] keep ..
  also have "\<dots> = {q \<in> set (dataset_quads d). \<not> isThingSubject (subject q)}
      \<union> {q \<in> set (dataset_quads d). isThingSubject (subject q)
        \<and> \<not> (predicate q = acl_agentClass \<and> object q = NamedNode foaf_Agent)}
      \<union> remainders names d \<union> set (thing_quads ?pub)"
    using un unfolding filtered_union by auto
  also have "\<dots> = {q \<in> set (dataset_quads d).
        \<not> (isThingSubject (subject q) \<and> predicate q = acl_agentClass
            \<and> object q = NamedNode foaf_Agent)}
     \<union> remainders names d \<union> set (thing_quads ?pub)"
    by auto
  finally show ?thesis .
qed

lemma remainders_props:
  assumes "q \<in> remainders names d"
  shows "\<exists>i < length (getThingAll d). subject q = LocalNode (names i)"
    and "predicate q \<noteq> acl_agent" and "predicate q \<noteq> acl_agentGroup"
    and "\<not> (predicate q = acl_accessTo \<and> object q = NamedNode (internal_accessTo d))"
proof -
  from assms obtain ir where ir: "ir \<in> set (enumerate 0 (getThingAll d))"
    and q: "q \<in> set (thing_quads (snd (removePublicFromRule (names (fst ir)) (snd ir)
                                 (internal_accessTo d) ResourceRule)))"
    unfolding remainders_def by blast
  from removePublic_snd_wellFormed q
  have "subject q = LocalNode (names (fst ir))"
    unfolding wellFormedThing_def by fastforce
  with ir show "\<exists>i < length (getThingAll d). subject q = LocalNode (names i)"
    by (auto simp: in_set_enumerate0)
  from removePublic_snd_no_grantee[OF q]
  show "predicate q \<noteq> acl_agent" and "predicate q \<noteq> acl_agentGroup" by simp_all
  from removePublic_snd_not_resource[OF q]
  show "\<not> (predicate q = acl_accessTo \<and> object q = NamedNode (internal_accessTo d))" .
qed


lemma updatedAcl_accessTo [simp]:
  "internal_accessTo (updatedAcl names d a) = internal_accessTo d"
  by (simp add: updatedAcl_def)

lemma updatedAcl_cases:
  assumes f: "freshNames names d"
    and q: "q \<in> set (dataset_quads (updatedAcl names d a))"
  obtains (old) "q \<in> set (dataset_quads d)"
      "\<not> (isThingSubject (subject q) \<and> predicate q = acl_agentClass
           \<and> object q = NamedNode foaf_Agent)"
    | (rem) "q \<in> remainders names d"
    | (pub) "q \<in> set (thing_quads (publicRule (names (length (getThingAll d)))
                                     (internal_accessTo d) a))"
  using q unfolding updatedAcl_quads[OF f] by blast

lemma updatedAcl_old_subject:
  assumes f: "freshNames names d"
    and s: "s \<in> subject ` set (dataset_quads d)"
  shows "Quad s p ob \<in> set (dataset_quads (updatedAcl names d a)) \<longleftrightarrow>
     Quad s p ob \<in> set (dataset_quads d)
     \<and> \<not> (isThingSubject s \<and> p = acl_agentClass \<and> ob = NamedNode foaf_Agent)"
proof
  assume "Quad s p ob \<in> set (dataset_quads (updatedAcl names d a))"
  with f show "Quad s p ob \<in> set (dataset_quads d)
     \<and> \<not> (isThingSubject s \<and> p = acl_agentClass \<and> ob = NamedNode foaf_Agent)"
  proof (cases rule: updatedAcl_cases)
    case old
    then show ?thesis by simp
  next
    case rem
    from remainders_props(1)[OF rem] obtain i where "i < length (getThingAll d)"
      and "s = LocalNode (names i)" by auto
    with freshNames_lt[OF f, of i] s show ?thesis by simp
  next
    case pub
    then have "s = LocalNode (names (length (getThingAll d)))"
      by (auto simp: publicRule_quads)
    with freshNames_lt[OF f order_refl] s show ?thesis by simp
  qed
next
  assume "Quad s p ob \<in> set (dataset_quads d)
     \<and> \<not> (isThingSubject s \<and> p = acl_agentClass \<and> ob = NamedNode foaf_Agent)"
  then show "Quad s p ob \<in> set (dataset_quads (updatedAcl names d a))"
    unfolding updatedAcl_quads[OF f] by simp
qed

lemma updatedAcl_grantee_old:
  assumes f: "freshNames names d"
    and q: "Quad s gp ob \<in> set (dataset_quads (updatedAcl names d a))"
    and gp: "gp = acl_agent \<or> gp = acl_agentGroup"
  shows "Quad s gp ob \<in> set (dataset_quads d)"
  using f q
proof (cases rule: updatedAcl_cases)
  case old
  then show ?thesis by simp
next
  case rem
  from remainders_props(2,3)[OF rem] gp show ?thesis by auto
next
  case pub
  with gp show ?thesis by (auto simp: publicRule_quads)
qed

lemma grants_updated_other:
  assumes f: "freshNames names d"
    and gp: "gp = acl_agent \<or> gp = acl_agentGroup"
    and tp: "acl_agentClass \<notin> TP"
  shows "grants (updatedAcl names d a)
           (\<lambda>t. (\<exists>p \<in> TP. r \<in> set (getIriAll t p)) \<and> v \<in> set (getIriAll t gp)) m
       = grants d
           (\<lambda>t. (\<exists>p \<in> TP. r \<in> set (getIriAll t p)) \<and> v \<in> set (getIriAll t gp)) m"
  (is "grants ?U ?P m = grants d ?P m")
proof
  assume "grants ?U ?P m"
  then obtain s p where s: "isThingSubject s"
    and ty: "Quad s rdf_type (NamedNode acl_Authorization) \<in> set (dataset_quads ?U)"
    and p: "p \<in> TP" and tg: "Quad s p (NamedNode r) \<in> set (dataset_quads ?U)"
    and gr: "Quad s gp (NamedNode v) \<in> set (dataset_quads ?U)"
    and mo: "Quad s acl_mode (NamedNode m) \<in> set (dataset_quads ?U)"
    unfolding grants_def in_getIriAll_getThing by blast
  from updatedAcl_grantee_old[OF f gr gp]
  have gr': "Quad s gp (NamedNode v) \<in> set (dataset_quads d)" .
  then have sd: "s \<in> subject ` set (dataset_quads d)" by force
  from ty tg mo have "Quad s rdf_type (NamedNode acl_Authorization) \<in> set (dataset_quads d)"
    and "Quad s p (NamedNode r) \<in> set (dataset_quads d)"
    and "Quad s acl_mode (NamedNode m) \<in> set (dataset_quads d)"
    unfolding updatedAcl_old_subject[OF f sd] by simp_all
  with s p gr' show "grants d ?P m"
    unfolding grants_def in_getIriAll_getThing by blast
next
  assume "grants d ?P m"
  then obtain s p where s: "isThingSubject s"
    and ty: "Quad s rdf_type (NamedNode acl_Authorization) \<in> set (dataset_quads d)"
    and p: "p \<in> TP" and tg: "Quad s p (NamedNode r) \<in> set (dataset_quads d)"
    and gr: "Quad s gp (NamedNode v) \<in> set (dataset_quads d)"
    and mo: "Quad s acl_mode (NamedNode m) \<in> set (dataset_quads d)"
    unfolding grants_def in_getIriAll_getThing by blast
  from gr have sd: "s \<in> subject ` set (dataset_quads d)" by force
  from p tp have pn: "p \<noteq> acl_agentClass" by auto
  from gp have gn: "gp \<noteq> acl_agentClass" by auto
  from ty tg gr mo pn gn
  have "Quad s rdf_type (NamedNode acl_Authorization) \<in> set (dataset_quads ?U)"
    and "Quad s p (NamedNode r) \<in> set (dataset_quads ?U)"
    and "Quad s gp (NamedNode v) \<in> set (dataset_quads ?U)"
    and "Quad s acl_mode (NamedNode m) \<in> set (dataset_quads ?U)"
    unfolding updatedAcl_old_subject[OF f sd] by simp_all
  with s p show "grants ?U ?P m"
    unfolding grants_def in_getIriAll_getThing by blast
qed

lemma grants_updated_public:
  assumes f: "freshNames names d"
  shows "grants (updatedAcl names d a)
           (\<lambda>t. appliesToResource t (internal_accessTo d) \<and> appliesToClass t foaf_Agent) m
       \<longleftrightarrow> m \<in> initModes a"
  (is "grants ?U ?P m \<longleftrightarrow> _")
proof
  let ?n = "length (getThingAll d)"
  let ?pub = "publicRule (names ?n) (internal_accessTo d) a"
  assume "grants ?U ?P m"
  then obtain s where s: "isThingSubject s"
    and tg: "Quad s acl_accessTo (NamedNode (internal_accessTo d)) \<in> set (dataset_quads ?U)"
    and gr: "Quad s acl_agentClass (NamedNode foaf_Agent) \<in> set (dataset_quads ?U)"
    and mo: "Quad s acl_mode (NamedNode m) \<in> set (dataset_quads ?U)"
    unfolding grants_def appliesToResource_def appliesToClass_def in_getIriAll_getThing
    by blast
  have new: "s \<notin> subject ` set (dataset_quads d)"
  proof
    assume "s \<in> subject ` set (dataset_quads d)"
    from gr[unfolded updatedAcl_old_subject[OF f this]] s show False by simp
  qed
  have notold: "Quad s p ob \<notin> set (dataset_quads d)" for p ob
    using new by force
  from f tg have "Quad s acl_accessTo (NamedNode (internal_accessTo d)) \<in> set (thing_quads ?pub)"
  proof (cases rule: updatedAcl_cases)
    case old
    with notold show ?thesis by simp
  next
    case rem
    from remainders_props(4)[OF rem] show ?thesis by simp
  next
    case pub
    then show ?thesis .
  qed
  then have sn: "s = LocalNode (names ?n)"
    by (auto simp: publicRule_quads)
  from f mo have "Quad s acl_mode (NamedNode m) \<in> set (thing_quads ?pub)"
  proof (cases rule: updatedAcl_cases)
    case old
    with notold show ?thesis by simp
  next
    case rem
    from remainders_props(1)[OF rem] sn obtain i where i: "i < ?n" and e: "names ?n = names i"
      by auto
    from i have "i \<le> ?n" by simp
    from freshNames_inj[OF f order_refl this e] i show ?thesis by simp
  next
    case pub
    then show ?thesis .
  qed
  then show "m \<in> initModes a"
    by (auto simp: publicRule_quads)
next
  let ?n = "length (getThingAll d)"
  assume m: "m \<in> initModes a"
  have "Quad (LocalNode (names ?n)) rdf_type (NamedNode acl_Authorization) \<in> set (dataset_quads ?U)"
    and "Quad (LocalNode (names ?n)) acl_accessTo (NamedNode (internal_accessTo d)) \<in> set (dataset_quads ?U)"
    and "Quad (LocalNode (names ?n)) acl_agentClass (NamedNode foaf_Agent) \<in> set (dataset_quads ?U)"
    and "Quad (LocalNode (names ?n)) acl_mode (NamedNode m) \<in> set (dataset_quads ?U)"
    unfolding updatedAcl_quads[OF f] publicRule_quads using m by simp_all
  then show "grants ?U ?P m"
    unfolding grants_def appliesToResource_def appliesToClass_def in_getIriAll_getThing
    by (intro exI[of _ "LocalNode (names ?n)"]) simp
qed


lemma initModes_access:
  "\<lparr> read_access = (mode_read \<in> initModes a),
     append_access = (mode_append \<in> initModes a \<or> mode_write \<in> initModes a),
     write_access = (mode_write \<in> initModes a),
     control_access = (mode_control \<in> initModes a) \<rparr> = normalise a"
  by (rule access.equality) (auto simp: initModes_def normalise_def)

lemma appliesToResource_TP:
  "appliesToResource t r = (\<exists>p \<in> {acl_accessTo}. r \<in> set (getIriAll t p))"
  by (simp add: appliesToResource_def)

lemma isDefaultForResource_TP:
  "isDefaultForResource t r = (\<exists>p \<in> {acl_default, acl_defaultForNew}. r \<in> set (getIriAll t p))"
  by (simp add: isDefaultForResource_def)

lemma setPublic_accessTo [simp]:
  "internal_accessTo (setPublicResourceAccess names d a) = internal_accessTo d"
  by (simp add: setPublicResourceAccess_updatedAcl)

lemma setPublic_public_access:
  assumes f: "freshNames names S"
  shows "getPublicResourceAccess (setPublicResourceAccess names S M) = normalise M"
proof -
  let ?P = "\<lambda>t. appliesToResource t (internal_accessTo S) \<and> appliesToClass t foaf_Agent"
  have "getPublicResourceAccess (setPublicResourceAccess names S M)
      = effectiveAccess (internal_removeEmptyAclRules (updatedAcl names S M)) ?P"
    by (simp add: getPublicResourceAccess_effective setPublicResourceAccess_updatedAcl)
  also have "\<dots> = effectiveAccess (updatedAcl names S M) ?P"
    by (rule effectiveAccess_removeEmpty) (rule targetedGrant_resource)
  also have "\<dots> = normalise M"
    unfolding effectiveAccess_grants grants_updated_public[OF f] by (rule initModes_access)
  finally show ?thesis .
qed

lemma setPublic_other_resource:
  assumes f: "freshNames names S" and gp: "gp = acl_agent \<or> gp = acl_agentGroup"
  shows "effectiveAccess (setPublicResourceAccess names S M)
           (\<lambda>t. appliesToResource t (internal_accessTo S) \<and> v \<in> set (getIriAll t gp))
       = effectiveAccess S
           (\<lambda>t. appliesToResource t (internal_accessTo S) \<and> v \<in> set (getIriAll t gp))"
proof -
  let ?P = "\<lambda>t. appliesToResource t (internal_accessTo S) \<and> v \<in> set (getIriAll t gp)"
  have tg: "targetedGrant ?P"
    using gp targetedGrant_resource(2,3) by blast
  have "effectiveAccess (setPublicResourceAccess names S M) ?P
      = effectiveAccess (updatedAcl names S M) ?P"
    unfolding setPublicResourceAccess_updatedAcl
    by (rule effectiveAccess_removeEmpty[OF tg])
  also have "\<dots> = effectiveAccess S ?P"
    unfolding appliesToResource_TP
    by (rule effectiveAccess_cong) (rule grants_updated_other[OF f gp], simp)
  finally show ?thesis .
qed

lemma setPublic_other_default:
  assumes f: "freshNames names S" and gp: "gp = acl_agent \<or> gp = acl_agentGroup"
  shows "effectiveAccess (setPublicResourceAccess names S M)
           (\<lambda>t. isDefaultForResource t (internal_accessTo S) \<and> v \<in> set (getIriAll t gp))
       = effectiveAccess S
           (\<lambda>t. isDefaultForResource t (internal_accessTo S) \<and> v \<in> set (getIriAll t gp))"
proof -
  let ?P = "\<lambda>t. isDefaultForResource t (internal_accessTo S) \<and> v \<in> set (getIriAll t gp)"
  have tg: "targetedGrant ?P"
    using gp targetedGrant_default(2,3) by blast
  have "effectiveAccess (setPublicResourceAccess names S M) ?P
      = effectiveAccess (updatedAcl names S M) ?P"
    unfolding setPublicResourceAccess_updatedAcl
    by (rule effectiveAccess_removeEmpty[OF tg])
  also have "\<dots> = effectiveAccess S ?P"
    unfolding isDefaultForResource_TP
    by (rule effectiveAccess_cong) (rule grants_updated_other[OF f gp], simp)
  finally show ?thesis .
qed

section \<open>Setting public access\<close>

text \<open>
  C1. When the names drawn for new rules are fresh, the public's effective access to
  the ACL's \<open>accessTo\<close> resource after \<open>setPublicResourceAccess S M\<close> is exactly
  \<open>M\<close>, for every access-mode set \<open>M\<close> (write implies append, the invariant of
  the data model), whatever \<open>S\<close> granted before: existing grants are overwritten,
  not merged. Without the invariant the result is \<open>M\<close> with write-implies-append
  applied.
\<close>

theorem setPublicResourceAccess_overwrites:
  assumes "freshNames names S"
  shows "getPublicResourceAccess (setPublicResourceAccess names S M) = normalise M
     \<and> ((write_access M \<longrightarrow> append_access M)
          \<longrightarrow> getPublicResourceAccess (setPublicResourceAccess names S M) = M)"
  using setPublic_public_access[OF assms, of M] by (simp add: normalise_def)

theorem setPublicResourceAccess_overwrites_witness:
  "freshNames exampleNames exampleShared
   \<and> getPublicResourceAccess exampleShared = noAccess\<lparr> control_access := True \<rparr>
   \<and> getPublicResourceAccess
        (setPublicResourceAccess exampleNames exampleShared (noAccess\<lparr> read_access := True \<rparr>))
      = \<lparr> read_access = True, append_access = False, write_access = False,
          control_access = False \<rparr>"
proof -
  have f: "freshNames exampleNames exampleShared" by code_simp
  have b: "getPublicResourceAccess exampleShared = noAccess\<lparr> control_access := True \<rparr>"
    by code_simp
  from setPublicResourceAccess_overwrites[OF f, of "noAccess\<lparr> read_access := True \<rparr>"]
  have "getPublicResourceAccess
        (setPublicResourceAccess exampleNames exampleShared (noAccess\<lparr> read_access := True \<rparr>))
      = noAccess\<lparr> read_access := True \<rparr>"
    by (simp add: noAccess_def normalise_def)
  with f b show ?thesis by (simp add: noAccess_def)
qed

text \<open>
  C2. When the names drawn for new rules are fresh, \<open>setPublicResourceAccess\<close> leaves
  the effective access of every agent and of every group unchanged, for the resource
  scope and for the default scope.
\<close>

theorem setPublicResourceAccess_frame:
  assumes "freshNames names S"
  shows "getAgentResourceAccess (setPublicResourceAccess names S M) agent
           = getAgentResourceAccess S agent
     \<and> getAgentDefaultAccess (setPublicResourceAccess names S M) agent
           = getAgentDefaultAccess S agent
     \<and> getGroupResourceAccess (setPublicResourceAccess names S M) groupIri
           = getGroupResourceAccess S groupIri
     \<and> getGroupDefaultAccess (setPublicResourceAccess names S M) groupIri
           = getGroupDefaultAccess S groupIri"
  unfolding getAgentResourceAccess_effective getAgentDefaultAccess_effective
    getGroupResourceAccess_effective getGroupDefaultAccess_effective setPublic_accessTo
  using setPublic_other_resource[OF assms] setPublic_other_default[OF assms]
  by simp

theorem setPublicResourceAccess_frame_witness:
  "freshNames exampleNames exampleShared
   \<and> getAgentResourceAccess
        (setPublicResourceAccess exampleNames exampleShared (noAccess\<lparr> read_access := True \<rparr>))
        ''https://some.pod/profile#me'' = noAccess\<lparr> control_access := True \<rparr>
   \<and> getGroupDefaultAccess
        (setPublicResourceAccess exampleNames exampleShared (noAccess\<lparr> read_access := True \<rparr>))
        ''https://some.pod/groups#friends'' = noAccess\<lparr> control_access := True \<rparr>"
proof -
  have f: "freshNames exampleNames exampleShared" by code_simp
  have a: "getAgentResourceAccess exampleShared ''https://some.pod/profile#me''
             = noAccess\<lparr> control_access := True \<rparr>"
    by code_simp
  have g: "getGroupDefaultAccess exampleShared ''https://some.pod/groups#friends''
             = noAccess\<lparr> control_access := True \<rparr>"
    by code_simp
  from setPublicResourceAccess_frame[OF f, of "noAccess\<lparr> read_access := True \<rparr>"
      "''https://some.pod/profile#me''" "''https://some.pod/groups#friends''"] f a g
  show ?thesis by simp
qed

section \<open>Path arithmetic\<close>

lemma js_substring_prefix:
  "0 \<le> k \<Longrightarrow> js_substring s 0 k = take (nat k) s"
  by (auto simp: js_substring_def Let_def min_def max_def)

lemma js_substring_negative:
  "k < 0 \<Longrightarrow> js_substring s 0 k = []"
  by (auto simp: js_substring_def Let_def min_def max_def)

lemma nat_int_pred: "nat (int n - 1) = n - 1"
  by simp

lemma length_takeWhile_lt:
  "\<exists>x \<in> set xs. \<not> P x \<Longrightarrow> length (takeWhile P xs) < length xs"
  by (induction xs) auto

lemma js_substringFrom_last:
  "js_substringFrom s (int (length s) - 1) = (if s = [] then [] else [last s])"
proof (cases "s = []")
  case True
  then show ?thesis by (simp add: js_substringFrom_def js_substring_def)
next
  case False
  then have "drop (length s - 1) s = [last s]"
    by (metis append_butlast_last_id append_eq_conv_conj length_butlast)
  with False show ?thesis
    by (auto simp: js_substringFrom_def js_substring_def Let_def min_def max_def nat_int_pred)
qed

lemma withoutTrailingSlash:
  "(if js_substringFrom P (int (length P) - 1) = ''/''
    then js_substring P 0 (int (length P) - 1) else P) = removeTrailingSlash P"
proof (cases "P = []")
  case True
  then show ?thesis
    by (simp add: js_substringFrom_def js_substring_def removeTrailingSlash_def)
next
  case False
  then have "js_substring P 0 (int (length P) - 1) = butlast P"
    by (simp add: js_substring_prefix butlast_conv_take nat_int_pred)
  with False show ?thesis
    by (simp add: js_substringFrom_last removeTrailingSlash_def)
qed

lemma removeFromLastSlash_take:
  assumes "CHR ''/'' \<in> set Q"
  shows "removeFromLastSlash Q
       = take (length Q - 1 - length (takeWhile (\<lambda>x. x \<noteq> CHR ''/'') (rev Q))) Q"
proof -
  let ?k = "length (takeWhile (\<lambda>x. x \<noteq> CHR ''/'') (rev Q))"
  have "dropWhile (\<lambda>x. x \<noteq> CHR ''/'') (rev Q) = drop ?k (rev Q)"
    by (rule dropWhile_eq_drop)
  then have "removeFromLastSlash Q = rev (drop (Suc ?k) (rev Q))"
    by (simp add: removeFromLastSlash_def)
  also have "\<dots> = take (length Q - Suc ?k) Q"
    by (simp add: rev_drop)
  finally show ?thesis by simp
qed

lemma removeFromLastSlash_none:
  assumes "CHR ''/'' \<notin> set Q"
  shows "removeFromLastSlash Q = []"
proof -
  have "dropWhile (\<lambda>x. x \<noteq> CHR ''/'') (rev Q) = []"
    using assms by auto
  then show ?thesis
    unfolding removeFromLastSlash_def by (simp only: drop_Nil rev.simps)
qed

lemma takeWhile_lt_length:
  assumes "c \<in> set Q"
  shows "length (takeWhile (\<lambda>x. x \<noteq> c) (rev Q)) < length Q"
proof -
  have "length (takeWhile (\<lambda>x. x \<noteq> c) (rev Q)) < length (rev Q)"
    using assms by (intro length_takeWhile_lt) auto
  then show ?thesis by simp
qed

lemma removeTrailingSlash_prefix: "take (length (removeTrailingSlash P)) P = removeTrailingSlash P"
  by (auto simp: removeTrailingSlash_def butlast_conv_take)

lemma getContainerPath_containerOf: "internal_getContainerPath P = containerOf P"
proof -
  let ?Q = "removeTrailingSlash P"
  show ?thesis
  proof (cases "CHR ''/'' \<in> set ?Q")
    case True
    let ?k = "length (takeWhile (\<lambda>x. x \<noteq> CHR ''/'') (rev ?Q))"
    from takeWhile_lt_length[OF True] have k: "?k < length ?Q" .
    then have idx: "js_lastIndexOf ?Q (CHR ''/'') = int (length ?Q - 1 - ?k)"
      using True by (simp add: js_lastIndexOf_def)
    have "js_substring P 0 (js_lastIndexOf ?Q (CHR ''/'')) = take (length ?Q - 1 - ?k) P"
      unfolding idx by (simp add: js_substring_prefix)
    also have "\<dots> = take (length ?Q - 1 - ?k) (take (length ?Q) P)"
      by (simp add: min_def)
    also have "\<dots> = take (length ?Q - 1 - ?k) ?Q"
      by (simp only: removeTrailingSlash_prefix)
    also have "\<dots> = removeFromLastSlash ?Q"
      by (simp only: removeFromLastSlash_take[OF True])
    finally show ?thesis
      by (simp add: internal_getContainerPath_def withoutTrailingSlash containerOf_def)
  next
    case False
    then have "js_lastIndexOf ?Q (CHR ''/'') = - 1"
      by (simp add: js_lastIndexOf_def)
    then have "js_substring P 0 (js_lastIndexOf ?Q (CHR ''/'')) = []"
      by (simp add: js_substring_negative)
    with False show ?thesis
      by (simp add: internal_getContainerPath_def withoutTrailingSlash containerOf_def
                    removeFromLastSlash_none)
  qed
qed

section \<open>The fallback walk\<close>

lemma fallback_root:
  "urlPathname e (getSourceUrl resource) = ''/'' \<Longrightarrow>
     internal_fetchFallbackAcl e (Suc fuel) resource = Some (Inr None)"
  by (simp add: Let_def)

lemma fallback_info_fails:
  assumes "urlPathname e (getSourceUrl resource) \<noteq> ''/''"
    and "getResourceInfo e
           (urlHref e (internal_getContainerPath (urlPathname e (getSourceUrl resource)))
              (urlOrigin e (getSourceUrl resource))) = Inl err"
  shows "internal_fetchFallbackAcl e (Suc fuel) resource = Some (Inl err)"
  using assms by (simp add: Let_def)

lemma fetchResourceAcl_fails:
  assumes "aclUrl (internal_resourceInfo dataset) = Some url"
    and "getSolidDataset e url = Inl err"
  shows "internal_fetchResourceAcl e dataset = None"
  using assms by (simp add: internal_fetchResourceAcl_def hasAccessibleAcl_def)

lemma fallback_continues:
  assumes "urlPathname e (getSourceUrl resource) \<noteq> ''/''"
    and "getResourceInfo e
           (urlHref e (internal_getContainerPath (urlPathname e (getSourceUrl resource)))
              (urlOrigin e (getSourceUrl resource))) = Inr containerInfo"
    and "aclUrl (internal_resourceInfo containerInfo) = Some url"
    and "getSolidDataset e url = Inl err"
  shows "internal_fetchFallbackAcl e (Suc fuel) resource
           = internal_fetchFallbackAcl e fuel containerInfo"
  using assms fetchResourceAcl_fails[OF assms(3,4)]
  by (simp add: Let_def hasAccessibleAcl_def)

lemma root_iff_always_null:
  "(\<forall>gri gsd. internal_fetchFallbackAcl
        (e\<lparr> getResourceInfo := gri, getSolidDataset := gsd \<rparr>) (Suc fuel) resource
        = Some (Inr None))
     \<longleftrightarrow> urlPathname e (getSourceUrl resource) = ''/''"
proof
  assume a: "\<forall>gri gsd. internal_fetchFallbackAcl
        (e\<lparr> getResourceInfo := gri, getSolidDataset := gsd \<rparr>) (Suc fuel) resource
        = Some (Inr None)"
  show "urlPathname e (getSourceUrl resource) = ''/''"
  proof (rule ccontr)
    assume n: "urlPathname e (getSourceUrl resource) \<noteq> ''/''"
    let ?e = "e\<lparr> getResourceInfo := (\<lambda>_. Inl NotFound), getSolidDataset := getSolidDataset e \<rparr>"
    from n have "internal_fetchFallbackAcl ?e (Suc fuel) resource = Some (Inl NotFound)"
      by (intro fallback_info_fails) simp_all
    moreover from a have "internal_fetchFallbackAcl ?e (Suc fuel) resource = Some (Inr None)"
      by blast
    ultimately show False by simp
  qed
next
  assume "urlPathname e (getSourceUrl resource) = ''/''"
  then show "\<forall>gri gsd. internal_fetchFallbackAcl
        (e\<lparr> getResourceInfo := gri, getSolidDataset := gsd \<rparr>) (Suc fuel) resource
        = Some (Inr None)"
    by (intro allI fallback_root) simp
qed

text \<open>Enough fuel gives a result when the server answers for the URL it was asked.\<close>

lemma containerOf_measure:
  assumes "P \<noteq> ''/''"
  shows "pathMeasure (internal_getContainerPath P) < pathMeasure P"
proof -
  let ?Q = "removeTrailingSlash P"
  show ?thesis
  proof (cases "CHR ''/'' \<in> set ?Q")
    case False
    then have "internal_getContainerPath P = ''/''"
      by (simp add: getContainerPath_containerOf containerOf_def removeFromLastSlash_none)
    with assms show ?thesis by (simp add: pathMeasure_def)
  next
    case True
    let ?k = "length (takeWhile (\<lambda>x. x \<noteq> CHR ''/'') (rev ?Q))"
    from takeWhile_lt_length[OF True] have k: "?k < length ?Q" .
    have len: "length (internal_getContainerPath P) = length ?Q - ?k"
      using k by (simp add: getContainerPath_containerOf containerOf_def
                            removeFromLastSlash_take[OF True])
    have "length ?Q - ?k < length P"
    proof (cases "P \<noteq> [] \<and> last P = CHR ''/''")
      case True
      then have "length ?Q < length P"
        by (simp add: removeTrailingSlash_def)
      then show ?thesis by simp
    next
      case False
      then have q: "?Q = P" by (auto simp: removeTrailingSlash_def)
      from True q have ne: "P \<noteq> []" by auto
      with False have "last P \<noteq> CHR ''/''" by simp
      with ne have "hd (rev P) \<noteq> CHR ''/''" by (simp add: hd_rev)
      with ne have "takeWhile (\<lambda>x. x \<noteq> CHR ''/'') (rev P) \<noteq> []"
        by (cases "rev P") auto
      then have "0 < length (takeWhile (\<lambda>x. x \<noteq> CHR ''/'') (rev P))"
        by simp
      moreover from ne have "0 < length P" by simp
      ultimately have "length P - length (takeWhile (\<lambda>x. x \<noteq> CHR ''/'') (rev P)) < length P"
        by (rule diff_less)
      with q show ?thesis by simp
    qed
    with len have "length (internal_getContainerPath P) < length P" by simp
    with assms show ?thesis by (simp add: pathMeasure_def)
  qed
qed

lemma fallback_walk_returns:
  assumes echo: "\<And>u info.
      getResourceInfo e (urlHref e (internal_getContainerPath (urlPathname e u)) (urlOrigin e u))
        = Inr info
      \<Longrightarrow> urlPathname e (getSourceUrl info) = internal_getContainerPath (urlPathname e u)"
  shows "pathMeasure (urlPathname e (getSourceUrl resource)) < fuel
     \<Longrightarrow> internal_fetchFallbackAcl e fuel resource \<noteq> None"
proof (induction fuel arbitrary: resource)
  case 0
  then show ?case by simp
next
  case (Suc fuel)
  let ?u = "getSourceUrl resource"
  show ?case
  proof (cases "urlPathname e ?u = ''/''")
    case True
    then show ?thesis by (simp add: Let_def)
  next
    case False
    show ?thesis
    proof (cases "getResourceInfo e
        (urlHref e (internal_getContainerPath (urlPathname e ?u)) (urlOrigin e ?u))")
      case (Inl err)
      with False show ?thesis by (simp add: Let_def)
    next
      case (Inr info)
      from echo[OF Inr] containerOf_measure[OF False] Suc.prems
      have "pathMeasure (urlPathname e (getSourceUrl info)) < fuel" by simp
      then have "internal_fetchFallbackAcl e fuel info \<noteq> None" by (rule Suc.IH)
      with False Inr show ?thesis
        by (auto simp: Let_def split: option.splits)
    qed
  qed
qed

text \<open>
  C9. The container path computed by \<open>internal_getContainerPath\<close> is the one the
  specification describes (remove a trailing slash, remove everything from the last
  remaining slash on, append a slash), so \<open>/a/b/\<close> gives \<open>/a/\<close> and \<open>/a/b/c\<close>
  gives \<open>/a/b/\<close>; and the walk gives null whatever the server would answer, that is
  without fetching a parent, exactly when the path of the resource is the root \<open>/\<close>.
\<close>

theorem container_path_and_root:
  "internal_getContainerPath P = containerOf P
   \<and> internal_getContainerPath ''/a/b/'' = ''/a/''
   \<and> internal_getContainerPath ''/a/b/c'' = ''/a/b/''
   \<and> ((\<forall>gri gsd. internal_fetchFallbackAcl
            (e\<lparr> getResourceInfo := gri, getSolidDataset := gsd \<rparr>) (Suc fuel) resource
            = Some (Inr None))
        \<longleftrightarrow> urlPathname e (getSourceUrl resource) = ''/'')"
proof (intro conjI)
  show "internal_getContainerPath P = containerOf P"
    by (rule getContainerPath_containerOf)
  show "internal_getContainerPath ''/a/b/'' = ''/a/''" by code_simp
  show "internal_getContainerPath ''/a/b/c'' = ''/a/b/''" by code_simp
  show "(\<forall>gri gsd. internal_fetchFallbackAcl
            (e\<lparr> getResourceInfo := gri, getSolidDataset := gsd \<rparr>) (Suc fuel) resource
            = Some (Inr None))
        \<longleftrightarrow> urlPathname e (getSourceUrl resource) = ''/''"
    by (rule root_iff_always_null)
qed

theorem container_path_and_root_witness:
  "urlPathname exampleEnv (getSourceUrl exampleRoot) = ''/''
   \<and> internal_fetchFallbackAcl exampleEnv (Suc 0) exampleRoot = Some (Inr None)
   \<and> containerOf ''/c/r'' = ''/c/''"
proof -
  have p: "urlPathname exampleEnv (getSourceUrl exampleRoot) = ''/''" by code_simp
  have c: "internal_getContainerPath ''/c/r'' = ''/c/''" by code_simp
  have u: "exampleEnv\<lparr> getResourceInfo := getResourceInfo exampleEnv,
                        getSolidDataset := getSolidDataset exampleEnv \<rparr> = exampleEnv"
    by simp
  note t = container_path_and_root [of "''/c/r''" exampleEnv 0 exampleRoot]
  from t p have "\<forall>gri gsd. internal_fetchFallbackAcl
            (exampleEnv\<lparr> getResourceInfo := gri, getSolidDataset := gsd \<rparr>) (Suc 0) exampleRoot
            = Some (Inr None)"
    by blast
  then have "internal_fetchFallbackAcl
            (exampleEnv\<lparr> getResourceInfo := getResourceInfo exampleEnv,
                         getSolidDataset := getSolidDataset exampleEnv \<rparr>) (Suc 0) exampleRoot
            = Some (Inr None)"
    by blast
  then have w: "internal_fetchFallbackAcl exampleEnv (Suc 0) exampleRoot = Some (Inr None)"
    by (simp only: u)
  from t c have "containerOf ''/c/r'' = ''/c/''" by simp
  with p w show ?thesis by (intro conjI)
qed

text \<open>
  The claim C3 as stated fails: the ACL of \<open>/c/\<close> cannot be fetched because access is
  forbidden, yet the walk from \<open>/c/r\<close> does not fail with Forbidden; it goes on to the
  root and returns the root's ACL.
\<close>

theorem acl_fetch_failure_counterexample:
  "getResourceInfo exampleEnv ''https://some.pod/c/''
     = Inr \<lparr> internal_resourceInfo =
              \<lparr> sourceIri = ''https://some.pod/c/'',
                aclUrl = Some ''https://some.pod/c/.acl'' \<rparr> \<rparr>
   \<and> getSolidDataset exampleEnv ''https://some.pod/c/.acl'' = Inl Forbidden
   \<and> internal_fetchFallbackAcl exampleEnv 3 exampleLeaf
     = Some (Inr (Some
         \<lparr> internal_resourceInfo = \<lparr> sourceIri = ''https://some.pod/.acl'', aclUrl = None \<rparr>,
           dataset_quads = [],
           internal_accessTo = ''https://some.pod/'' \<rparr>))
   \<and> internal_fetchFallbackAcl exampleEnv 3 exampleLeaf \<noteq> Some (Inl Forbidden)"
  by code_simp

text \<open>
  C3, amended. During fallback resolution a fetch of a candidate ACL document that
  fails, with NotFound or with any other error, is treated as "no ACL here":
  \<open>internal_fetchResourceAcl\<close> gives null and the walk continues with the container as
  the new resource. A failure of fetching the container's metadata is propagated to the
  caller.
\<close>

theorem acl_fetch_failure_continues:
  "(urlPathname e (getSourceUrl resource) \<noteq> ''/''
    \<and> getResourceInfo e
         (urlHref e (internal_getContainerPath (urlPathname e (getSourceUrl resource)))
            (urlOrigin e (getSourceUrl resource))) = Inr containerInfo
    \<and> aclUrl (internal_resourceInfo containerInfo) = Some url
    \<and> getSolidDataset e url = Inl err
    \<longrightarrow> internal_fetchResourceAcl e containerInfo = None
        \<and> internal_fetchFallbackAcl e (Suc fuel) resource
            = internal_fetchFallbackAcl e fuel containerInfo)
   \<and> (urlPathname e (getSourceUrl resource) \<noteq> ''/''
      \<and> getResourceInfo e
         (urlHref e (internal_getContainerPath (urlPathname e (getSourceUrl resource)))
            (urlOrigin e (getSourceUrl resource))) = Inl err
      \<longrightarrow> internal_fetchFallbackAcl e (Suc fuel) resource = Some (Inl err))"
  using fallback_continues fetchResourceAcl_fails fallback_info_fails by blast

theorem acl_fetch_failure_continues_witness:
  "urlPathname exampleEnv (getSourceUrl exampleLeaf) \<noteq> ''/''
   \<and> getResourceInfo exampleEnv
        (urlHref exampleEnv
           (internal_getContainerPath (urlPathname exampleEnv (getSourceUrl exampleLeaf)))
           (urlOrigin exampleEnv (getSourceUrl exampleLeaf))) = Inr exampleContainer
   \<and> aclUrl (internal_resourceInfo exampleContainer) = Some ''https://some.pod/c/.acl''
   \<and> getSolidDataset exampleEnv ''https://some.pod/c/.acl'' = Inl Forbidden
   \<and> internal_fetchResourceAcl exampleEnv exampleContainer = None
   \<and> internal_fetchFallbackAcl exampleEnv (Suc 2) exampleLeaf
        = internal_fetchFallbackAcl exampleEnv 2 exampleContainer"
proof -
  have h1: "urlPathname exampleEnv (getSourceUrl exampleLeaf) \<noteq> ''/''" by code_simp
  have h2: "getResourceInfo exampleEnv
        (urlHref exampleEnv
           (internal_getContainerPath (urlPathname exampleEnv (getSourceUrl exampleLeaf)))
           (urlOrigin exampleEnv (getSourceUrl exampleLeaf))) = Inr exampleContainer"
    by code_simp
  have h3: "aclUrl (internal_resourceInfo exampleContainer) = Some ''https://some.pod/c/.acl''"
    by code_simp
  have h4: "getSolidDataset exampleEnv ''https://some.pod/c/.acl'' = Inl Forbidden"
    by code_simp
  from acl_fetch_failure_continues
         [of exampleEnv exampleLeaf exampleContainer "''https://some.pod/c/.acl''" Forbidden 2]
       h1 h2 h3 h4
  have "internal_fetchResourceAcl exampleEnv exampleContainer = None
        \<and> internal_fetchFallbackAcl exampleEnv (Suc 2) exampleLeaf
            = internal_fetchFallbackAcl exampleEnv 2 exampleContainer"
    by blast
  with h1 h2 h3 h4 show ?thesis by (intro conjI) simp_all
qed

end
